theory Spec2Isabelle
  imports Main "HOL-Library.AList"
begin

section \<open>Python values, errors and the builtins the sources call\<close>

text \<open>
  The processor works on the result of \<^verbatim>\<open>json.load\<close>: a dynamically typed tree.
  Objects are association lists (the first binding of a key is the dictionary's entry,
  the number of entries is the number of distinct keys). A string is a list of code
  points, a \<^typ>\<open>char\<close> being a code point below 256. JSON floats and code points from 256
  on are left out.
\<close>

datatype pyval =
    PNone
  | PBool bool
  | PInt int
  | PStr string
  | PList "pyval list"
  | PDict "(string \<times> pyval) list"

datatype error =
    KeyError
  | IndexError
  | TypeError
  | ValueError
  | AttributeError
  | UnboundLocalError
  | FileNotFoundError
  | JSONDecodeError
  | SyntaxError

text \<open>Sequencing of statements that may raise: the first error ends the run.\<close>

definition and_then :: "error + 'a \<Rightarrow> ('a \<Rightarrow> error + 'b) \<Rightarrow> error + 'b" where
  "and_then m f = (case m of Inl e \<Rightarrow> Inl e | Inr x \<Rightarrow> f x)"

text \<open>Truth value of an object, as \<^verbatim>\<open>if x\<close> and \<^verbatim>\<open>not x\<close> take it.\<close>

fun truthy :: "pyval \<Rightarrow> bool" where
  "truthy PNone = False"
| "truthy (PBool b) = b"
| "truthy (PInt n) = (n \<noteq> 0)"
| "truthy (PStr s) = (s \<noteq> [])"
| "truthy (PList xs) = (xs \<noteq> [])"
| "truthy (PDict d) = (d \<noteq> [])"

text \<open>\<^verbatim>\<open>isinstance(x, list)\<close> and \<^verbatim>\<open>isinstance(x, str)\<close>.\<close>

fun is_list :: "pyval \<Rightarrow> bool" where
  "is_list (PList xs) = True"
| "is_list v = False"

fun is_str :: "pyval \<Rightarrow> bool" where
  "is_str (PStr s) = True"
| "is_str v = False"

text \<open>\<^verbatim>\<open>x[key]\<close> with a string key: only a dictionary accepts it.\<close>

fun getitem_str :: "pyval \<Rightarrow> string \<Rightarrow> error + pyval" where
  "getitem_str (PDict d) k = (case map_of d k of None \<Rightarrow> Inl KeyError | Some v \<Rightarrow> Inr v)"
| "getitem_str v k = Inl TypeError"

text \<open>
  \<^verbatim>\<open>x[0]\<close>: the first element of a list, the first character of a string; a dictionary
  read from JSON has string keys only, so the integer key is missing.
\<close>

fun getitem0 :: "pyval \<Rightarrow> error + pyval" where
  "getitem0 (PList []) = Inl IndexError"
| "getitem0 (PList (x # xs)) = Inr x"
| "getitem0 (PStr []) = Inl IndexError"
| "getitem0 (PStr (c # cs)) = Inr (PStr [c])"
| "getitem0 (PDict d) = Inl KeyError"
| "getitem0 v = Inl TypeError"

text \<open>\<^verbatim>\<open>len(x)\<close>.\<close>

fun py_len :: "pyval \<Rightarrow> error + nat" where
  "py_len (PStr s) = Inr (length s)"
| "py_len (PList xs) = Inr (length xs)"
| "py_len (PDict d) = Inr (length (remdups (map fst d)))"
| "py_len v = Inl TypeError"

text \<open>
  \<^verbatim>\<open>for y in x\<close>: the elements a loop or comprehension visits; for a dictionary, its keys
  in the order of their first binding.
\<close>

fun py_iter :: "pyval \<Rightarrow> error + pyval list" where
  "py_iter (PList xs) = Inr xs"
| "py_iter (PStr s) = Inr (map (\<lambda>c. PStr [c]) s)"
| "py_iter (PDict d) = Inr (map PStr (rev (remdups (rev (map fst d)))))"
| "py_iter v = Inl TypeError"

text \<open>\<^verbatim>\<open>str(i)\<close> for a non-negative integer: its decimal digits.\<close>

definition digit_char :: "nat \<Rightarrow> char" where
  "digit_char d = char_of (48 + d)"

fun str_of_nat :: "nat \<Rightarrow> string" where
  "str_of_nat n =
     (if n < 10 then [digit_char n] else str_of_nat (n div 10) @ [digit_char (n mod 10)])"

declare str_of_nat.simps [simp del]

text \<open>
  Whitespace as \<^verbatim>\<open>str.strip()\<close> sees it (\<^verbatim>\<open>str.isspace\<close>), below 256: tab, line feed,
  vertical tab, form feed, carriage return, the four separators 28 to 31, the space, the
  next-line control 133 and the no-break space 160.
\<close>

definition is_space :: "char \<Rightarrow> bool" where
  "is_space c = (of_char c \<in> {9, 10, 11, 12, 13, 28, 29, 30, 31, 32, 133, 160 :: nat})"

definition strip :: "string \<Rightarrow> string" where
  "strip s = rev (dropWhile is_space (rev (dropWhile is_space s)))"

text \<open>\<^verbatim>\<open>x.strip()\<close>: only a string has the method.\<close>

fun py_strip :: "pyval \<Rightarrow> error + pyval" where
  "py_strip (PStr s) = Inr (PStr (strip s))"
| "py_strip v = Inl AttributeError"

text \<open>\<^verbatim>\<open>s.split(c)\<close> with a one-character separator: never an empty list.\<close>

fun split :: "char \<Rightarrow> string \<Rightarrow> string list" where
  "split c [] = [[]]"
| "split c (x # xs) =
     (if x = c then [] # split c xs
      else (case split c xs of [] \<Rightarrow> [[x]] | y # ys \<Rightarrow> (x # y) # ys))"

text \<open>\<^verbatim>\<open>sep.join(parts)\<close>.\<close>

fun join :: "string \<Rightarrow> string list \<Rightarrow> string" where
  "join sep [] = []"
| "join sep [x] = x"
| "join sep (x # y # ys) = x @ sep @ join sep (y # ys)"

text \<open>
  \<^verbatim>\<open>int(x)\<close>: a boolean or an integer is its own value. A string loses the whitespace
  at its two ends, then is read as an optional sign and decimal digits, single
  underscores allowed between digits. The whitespace \<^verbatim>\<open>int\<close> skips is not that of
  \<^verbatim>\<open>str.strip()\<close>: it is tab, line feed, vertical tab, form feed, carriage return and
  space, and, the string not being ASCII then, the two whitespace code points 133 and
  160, which \<^verbatim>\<open>int\<close> turns into spaces first; the separators 28 to 31 are not skipped.
  The interpreter's limit on the number of digits (a setting of the process) is left
  out.
\<close>

definition is_int_space :: "char \<Rightarrow> bool" where
  "is_int_space c = (of_char c \<in> {9, 10, 11, 12, 13, 32, 133, 160 :: nat})"

definition int_strip :: "string \<Rightarrow> string" where
  "int_strip s = rev (dropWhile is_int_space (rev (dropWhile is_int_space s)))"

definition is_digit :: "char \<Rightarrow> bool" where
  "is_digit c = (48 \<le> (of_char c :: nat) \<and> (of_char c :: nat) \<le> 57)"

fun digits_value :: "string \<Rightarrow> nat \<Rightarrow> bool \<Rightarrow> error + nat" where
  "digits_value [] acc after_digit = (if after_digit then Inr acc else Inl ValueError)"
| "digits_value (c # cs) acc after_digit =
     (if is_digit c then digits_value cs (10 * acc + (of_char c - 48)) True
      else if c = CHR ''_'' \<and> after_digit then digits_value cs acc False
      else Inl ValueError)"

definition int_of_str :: "string \<Rightarrow> error + int" where
  "int_of_str s =
     (case int_strip s of
        [] \<Rightarrow> Inl ValueError
      | c # cs \<Rightarrow>
          if c = CHR ''-'' then and_then (digits_value cs 0 False) (\<lambda>n. Inr (- int n))
          else if c = CHR ''+'' then and_then (digits_value cs 0 False) (\<lambda>n. Inr (int n))
          else and_then (digits_value (c # cs) 0 False) (\<lambda>n. Inr (int n)))"

fun py_int :: "pyval \<Rightarrow> error + int" where
  "py_int (PBool b) = Inr (if b then 1 else 0)"
| "py_int (PInt n) = Inr n"
| "py_int (PStr s) = int_of_str s"
| "py_int v = Inl TypeError"

fun map_err :: "('a \<Rightarrow> error + 'b) \<Rightarrow> 'a list \<Rightarrow> error + 'b list" where
  "map_err f [] = Inr []"
| "map_err f (x # xs) = and_then (f x) (\<lambda>y. and_then (map_err f xs) (\<lambda>ys. Inr (y # ys)))"

section \<open>The MS MARCO data processor\<close>

text \<open>
  The unit the processor produces: the dictionary \<^verbatim>\<open>input_example\<close>, which
  \<^verbatim>\<open>DialogueInputExample\<close> holds as its \<^verbatim>\<open>data\<close> (the dataset reads
  \<^verbatim>\<open>features[i].data["labels"]\<close>). The two inner dictionaries are association lists in
  insertion order.
\<close>

record example =
  utterance :: pyval
  example_id :: nat
  labels :: "(string \<times> pyval) list"
  possible_labels :: "(string \<times> pyval) list"

text \<open>
  \<^verbatim>\<open>os.path.join(data_dir, filename)\<close> for the relative file names used here, and
  \<^verbatim>\<open>open_json\<close>: the file system gives, for a path, the parsed JSON value or the error
  of \<^verbatim>\<open>open\<close> or \<^verbatim>\<open>json.load\<close>.
\<close>

definition path_join :: "string \<Rightarrow> string \<Rightarrow> string" where
  "path_join data_dir filename =
     (if data_dir = [] \<or> last data_dir = CHR ''/'' then data_dir @ filename
      else data_dir @ ''/'' @ filename)"

definition open_json :: "(string \<Rightarrow> error + pyval) \<Rightarrow> string \<Rightarrow> string \<Rightarrow> error + pyval" where
  "open_json fs data_dir filename = fs (path_join data_dir filename)"

definition dataset_split_print :: "(string \<times> string) list" where
  "dataset_split_print = [(''train'', ''train''), (''dev'', ''train''), (''test'', ''dev'')]"

definition source_name :: "string \<Rightarrow> error + string" where
  "source_name dataset_split =
     (case map_of dataset_split_print dataset_split of None \<Rightarrow> Inl KeyError | Some name \<Rightarrow> Inr name)"

text \<open>The index loops of lines 72 to 84: \<^verbatim>\<open>idxs\<close> for a split and a corpus of \<open>n\<close> answers.\<close>

definition train_idxs :: "nat \<Rightarrow> nat list" where
  "train_idxs n = fold (\<lambda>idx idxs. if idx mod 10 \<noteq> 0 then idxs @ [idx] else idxs) [0..<n] []"

definition dev_idxs :: "nat \<Rightarrow> nat list" where
  "dev_idxs n = fold (\<lambda>idx idxs. if idx mod 10 = 0 then idxs @ [idx] else idxs) [0..<n] []"

definition split_idxs :: "string \<Rightarrow> nat \<Rightarrow> error + nat list" where
  "split_idxs dataset_split n =
     (if dataset_split = ''train'' then Inr (train_idxs n)
      else if dataset_split = ''dev'' then Inr (dev_idxs n)
      else if dataset_split = ''test'' then Inr [0..<n]
      else Inl UnboundLocalError)"

text \<open>
  The gold passage comprehension of lines 100 to 104: for each candidate the condition
  \<^verbatim>\<open>int(candidate_passage["is_selected"])\<close> is evaluated first, the text only when it holds.
\<close>

definition selected_text :: "pyval \<Rightarrow> error + pyval list" where
  "selected_text candidate_passage =
     and_then (getitem_str candidate_passage ''is_selected'') (\<lambda>flag.
     and_then (py_int flag) (\<lambda>n.
       if n \<noteq> 0 then
         and_then (getitem_str candidate_passage ''passage_text'') (\<lambda>t. Inr [t])
       else Inr []))"

definition gold_passages :: "pyval list \<Rightarrow> error + pyval list" where
  "gold_passages candidate_passages =
     and_then (map_err selected_text candidate_passages) (\<lambda>tss. Inr (concat tss))"

definition possible_passages :: "pyval list \<Rightarrow> error + pyval list" where
  "possible_passages candidate_passages =
     map_err (\<lambda>candidate_passage. getitem_str candidate_passage ''passage_text'') candidate_passages"

definition service_labels :: pyval where
  "service_labels = PList (map PStr (split CHR '','' ''LOCATION,NUMERIC,PERSON,DESCRIPTION,ENTITY''))"

text \<open>\<^verbatim>\<open>raw_examples[field][str(i)]\<close>.\<close>

definition raw_field :: "pyval \<Rightarrow> string \<Rightarrow> nat \<Rightarrow> error + pyval" where
  "raw_field raw_examples field i =
     and_then (getitem_str raw_examples field) (\<lambda>m. getitem_str m (str_of_nat i))"

text \<open>Lines 90 and 91: the ground-truth answer.\<close>

definition first_answer :: "pyval \<Rightarrow> error + pyval" where
  "first_answer answer = (if is_list answer then getitem0 answer else Inr answer)"

text \<open>
  Lines 93 to 97: the well-formed answer. \<^verbatim>\<open>ast.literal_eval\<close> belongs to Python's
  library, not to this repository: it is a parameter.
\<close>

definition first_well_formed :: "(pyval \<Rightarrow> error + pyval) \<Rightarrow> pyval \<Rightarrow> error + pyval" where
  "first_well_formed literal_eval well_formed_answer =
     and_then
       (if is_list well_formed_answer then Inr well_formed_answer
        else literal_eval well_formed_answer)
       (\<lambda>w. if truthy w then getitem0 w else Inr PNone)"

text \<open>Line 105: \<^verbatim>\<open>passage[0] if passage else None\<close>.\<close>

fun first_or_none :: "pyval list \<Rightarrow> pyval" where
  "first_or_none [] = PNone"
| "first_or_none (p # ps) = p"

text \<open>Lines 87 to 123: the body of the loop over \<^verbatim>\<open>idxs\<close>, for one index.\<close>

definition build_example :: "(pyval \<Rightarrow> error + pyval) \<Rightarrow> pyval \<Rightarrow> nat \<Rightarrow> error + example" where
  "build_example literal_eval raw_examples i =
     and_then (raw_field raw_examples ''query'' i) (\<lambda>utt.
     and_then (raw_field raw_examples ''answers'' i) (\<lambda>answer0.
     and_then (first_answer answer0) (\<lambda>answer.
     and_then (raw_field raw_examples ''wellFormedAnswers'' i) (\<lambda>wfa0.
     and_then (first_well_formed literal_eval wfa0) (\<lambda>well_formed_answer.
     and_then (raw_field raw_examples ''query_type'' i) (\<lambda>query_type.
     and_then (raw_field raw_examples ''passages'' i) (\<lambda>candidate_passages.
     and_then (py_iter candidate_passages) (\<lambda>cands.
     and_then (gold_passages cands) (\<lambda>passage.
     and_then (possible_passages cands) (\<lambda>possible.
       Inr \<lparr> utterance = utt,
             example_id = i,
             labels =
               [(''service'', query_type),
                (''response'', answer),
                (''fluent_response'', well_formed_answer),
                (''passage'', first_or_none passage)],
             possible_labels =
               [(''service'', service_labels),
                (''passage'', PList possible)] \<rparr>))))))))))"

text \<open>\<^verbatim>\<open>get_dialog_examples\<close>, lines 55 to 125.\<close>

definition get_dialog_examples ::
  "(pyval \<Rightarrow> error + pyval) \<Rightarrow> (string \<Rightarrow> error + pyval) \<Rightarrow> string \<Rightarrow> string \<Rightarrow> error + example list"
where
  "get_dialog_examples literal_eval fs data_dir dataset_split =
     and_then (source_name dataset_split) (\<lambda>name.
     and_then (open_json fs data_dir (name @ ''_v2.1.json'')) (\<lambda>raw_examples.
     and_then (getitem_str raw_examples ''answers'') (\<lambda>answers.
     and_then (py_len answers) (\<lambda>n.
     and_then (split_idxs dataset_split n) (\<lambda>idxs.
       map_err (build_example literal_eval raw_examples) idxs)))))"

text \<open>A corpus of \<open>n\<close> records in the layout of the MS MARCO files, for concrete runs.\<close>

definition sample_passages :: pyval where
  "sample_passages =
     PList [PDict [(''is_selected'', PInt 0), (''passage_text'', PStr ''first'')],
            PDict [(''is_selected'', PInt 1), (''passage_text'', PStr ''second'')]]"

definition sample_corpus :: "nat \<Rightarrow> pyval" where
  "sample_corpus n =
     PDict [(''query'', PDict (map (\<lambda>i. (str_of_nat i, PStr ''who'')) [0..<n])),
            (''answers'', PDict (map (\<lambda>i. (str_of_nat i, PList [PStr ''me''])) [0..<n])),
            (''wellFormedAnswers'', PDict (map (\<lambda>i. (str_of_nat i, PStr ''[]'')) [0..<n])),
            (''query_type'', PDict (map (\<lambda>i. (str_of_nat i, PStr ''PERSON'')) [0..<n])),
            (''passages'', PDict (map (\<lambda>i. (str_of_nat i, sample_passages)) [0..<n]))]"

text \<open>
  The values of \<^verbatim>\<open>ast.literal_eval\<close> on the well-formed answers of the sample records:
  the two list displays evaluate to their lists, the unclosed bracket is a
  \<^verbatim>\<open>SyntaxError\<close>, and a value that is neither a string nor a syntax tree is a
  \<^verbatim>\<open>ValueError\<close>. The sample runs give it no other string.
\<close>

definition sample_literal_eval :: "pyval \<Rightarrow> error + pyval" where
  "sample_literal_eval v =
     (if v = PStr ''[]'' then Inr (PList [])
      else if v = PStr ''['It is me.', 'Me.']'' then Inr (PList [PStr ''It is me.'', PStr ''Me.''])
      else if is_str v then Inl SyntaxError
      else Inl ValueError)"

definition sample_fs :: "nat \<Rightarrow> nat \<Rightarrow> string \<Rightarrow> error + pyval" where
  "sample_fs n m path =
     (if path = ''data/train_v2.1.json'' then Inr (sample_corpus n)
      else if path = ''data/dev_v2.1.json'' then Inr (sample_corpus m)
      else Inl FileNotFoundError)"

text \<open>The example the processor builds from each record of the sample corpus.\<close>

definition sample_example :: "nat \<Rightarrow> example" where
  "sample_example i =
     \<lparr> utterance = PStr ''who'', example_id = i,
       labels = [(''service'', PStr ''PERSON''), (''response'', PStr ''me''),
                 (''fluent_response'', PNone), (''passage'', PStr ''second'')],
       possible_labels = [(''service'', PList [PStr ''LOCATION'', PStr ''NUMERIC'', PStr ''PERSON'',
                                               PStr ''DESCRIPTION'', PStr ''ENTITY'']),
                          (''passage'', PList [PStr ''first'', PStr ''second''])] \<rparr>"

text \<open>
  The words of the specification for the gold passage. The selection flag of a candidate,
  \<^emph>\<open>coerced via a non-zero integer check\<close>: an integer is itself, a boolean is 1 or 0, a
  string is the integer it spells; any other value has no integer value. A candidate is
  flagged when the integer value of its \<^verbatim>\<open>is_selected\<close> entry is not zero; its text is its
  \<^verbatim>\<open>passage_text\<close> entry; it is well formed when it has both entries and the flag has an
  integer value.
\<close>

definition flag_value :: "pyval \<Rightarrow> int option" where
  "flag_value flag =
     (case flag of
        PBool b \<Rightarrow> Some (if b then 1 else 0)
      | PInt n \<Rightarrow> Some n
      | PStr s \<Rightarrow> (case int_of_str s of Inl e \<Rightarrow> None | Inr n \<Rightarrow> Some n)
      | _ \<Rightarrow> None)"

definition is_flagged :: "pyval \<Rightarrow> bool" where
  "is_flagged candidate_passage =
     (case candidate_passage of
        PDict d \<Rightarrow>
          (case map_of d ''is_selected'' of
             None \<Rightarrow> False
           | Some flag \<Rightarrow> (case flag_value flag of None \<Rightarrow> False | Some n \<Rightarrow> n \<noteq> 0))
      | _ \<Rightarrow> False)"

definition passage_text :: "pyval \<Rightarrow> pyval" where
  "passage_text candidate_passage =
     (case candidate_passage of
        PDict d \<Rightarrow> (case map_of d ''passage_text'' of None \<Rightarrow> PNone | Some t \<Rightarrow> t)
      | _ \<Rightarrow> PNone)"

definition well_formed_candidate :: "pyval \<Rightarrow> bool" where
  "well_formed_candidate candidate_passage =
     (case candidate_passage of
        PDict d \<Rightarrow>
          (case map_of d ''is_selected'' of
             None \<Rightarrow> False
           | Some flag \<Rightarrow> flag_value flag \<noteq> None) \<and>
          map_of d ''passage_text'' \<noteq> None
      | _ \<Rightarrow> False)"

text \<open>
  The words of the specification for the two answers: the answer of a raw value (none
  for an empty list), and the first element of a collection that is a list.
\<close>

definition answer_of :: "pyval \<Rightarrow> pyval option" where
  "answer_of raw_answer =
     (case raw_answer of
        PList [] \<Rightarrow> None
      | PList (x # rest) \<Rightarrow> Some x
      | _ \<Rightarrow> Some raw_answer)"

definition first_or_absent :: "pyval list \<Rightarrow> pyval" where
  "first_or_absent collection = (case collection of [] \<Rightarrow> PNone | x # rest \<Rightarrow> x)"

text \<open>
  More records for concrete runs: one whose well-formed answer does not parse, one with
  no selected passage and a list of well-formed answers, and one with a plain answer, a
  well-formed answer written as a list display, and flags of several types.
\<close>

definition sample_unparsed :: pyval where
  "sample_unparsed =
     PDict [(''query'', PDict [(''0'', PStr ''who'')]),
            (''answers'', PDict [(''0'', PStr ''me'')]),
            (''wellFormedAnswers'', PDict [(''0'', PStr ''[oops'')]),
            (''query_type'', PDict [(''0'', PStr ''PERSON'')]),
            (''passages'', PDict [(''0'', sample_passages)])]"

definition sample_unselected :: pyval where
  "sample_unselected =
     PDict [(''query'', PDict [(''0'', PStr ''who'')]),
            (''answers'', PDict [(''0'', PStr ''me'')]),
            (''wellFormedAnswers'', PDict [(''0'', PList [PStr ''It is me.'', PStr ''Me.''])]),
            (''query_type'', PDict [(''0'', PStr ''PERSON'')]),
            (''passages'', PDict [(''0'',
               PList [PDict [(''is_selected'', PInt 0), (''passage_text'', PStr ''first'')],
                      PDict [(''is_selected'', PStr ''0''), (''passage_text'', PStr ''second'')]])])]"

definition sample_mixed :: pyval where
  "sample_mixed =
     PDict [(''query'', PDict [(''0'', PStr ''who'')]),
            (''answers'', PDict [(''0'', PStr ''me'')]),
            (''wellFormedAnswers'', PDict [(''0'', PStr ''['It is me.', 'Me.']'')]),
            (''query_type'', PDict [(''0'', PStr ''PERSON'')]),
            (''passages'', PDict [(''0'',
               PList [PDict [(''is_selected'', PStr '' 0 ''), (''passage_text'', PStr ''first'')],
                      PDict [(''is_selected'', PBool False), (''passage_text'', PStr ''second'')],
                      PDict [(''passage_text'', PStr ''third''), (''is_selected'', PStr ''1'')],
                      PDict [(''is_selected'', PInt 2), (''passage_text'', PStr ''fourth'')],
                      PDict [(''is_selected'', PBool True), (''passage_text'', PStr ''fifth'')]])])]"

definition sample_mixed_example :: example where
  "sample_mixed_example =
     \<lparr> utterance = PStr ''who'', example_id = 0,
       labels = [(''service'', PStr ''PERSON''), (''response'', PStr ''me''),
                 (''fluent_response'', PStr ''It is me.''), (''passage'', PStr ''third'')],
       possible_labels = [(''service'', PList [PStr ''LOCATION'', PStr ''NUMERIC'', PStr ''PERSON'',
                                               PStr ''DESCRIPTION'', PStr ''ENTITY'']),
                          (''passage'', PList [PStr ''first'', PStr ''second'', PStr ''third'',
                                               PStr ''fourth'', PStr ''fifth''])] \<rparr>"

definition sample_unselected_example :: example where
  "sample_unselected_example =
     \<lparr> utterance = PStr ''who'', example_id = 0,
       labels = [(''service'', PStr ''PERSON''), (''response'', PStr ''me''),
                 (''fluent_response'', PStr ''It is me.''), (''passage'', PNone)],
       possible_labels = [(''service'', PList [PStr ''LOCATION'', PStr ''NUMERIC'', PStr ''PERSON'',
                                               PStr ''DESCRIPTION'', PStr ''ENTITY'']),
                          (''passage'', PList [PStr ''first'', PStr ''second''])] \<rparr>"

section \<open>The sequence-to-sequence generation dataset\<close>

record cfg =
  input_field :: string
  output_field :: string
  max_seq_length :: nat
  debug_mode :: bool

text \<open>
  The tokenizer is a collaborator: \<open>encode text max_length\<close> is the call
  \<^verbatim>\<open>tokenizer.tokenizer(text, truncation=True, max_length=..., padding="max_length",
  return_tensors="pt")\<close>, giving the row of token ids (vocabulary indices) and the
  attention mask, or the tokenizer's error.
\<close>

record tokenizer =
  encode :: "pyval \<Rightarrow> nat \<Rightarrow> error + (nat list \<times> nat list)"
  pad_token_id :: int

record dataset =
  ds_cfg :: cfg
  input_label_type :: string
  output_label_type :: string
  features :: "example list"

text \<open>\<^verbatim>\<open>data["labels"]["utterance"] = data["utterance"]\<close> (lines 48 and 85).\<close>

definition inject_utterance :: "example \<Rightarrow> example" where
  "inject_utterance ex = ex\<lparr>labels := AList.update ''utterance'' (utterance ex) (labels ex)\<rparr>"

text \<open>\<^verbatim>\<open>data["labels"][field]\<close>.\<close>

definition label_of :: "example \<Rightarrow> string \<Rightarrow> error + pyval" where
  "label_of ex field = (case map_of (labels ex) field of None \<Rightarrow> Inl KeyError | Some v \<Rightarrow> Inr v)"

text \<open>Line 52: \<^verbatim>\<open>not labels[field] or not labels[field].strip()\<close>.\<close>

definition field_empty :: "example \<Rightarrow> string \<Rightarrow> error + bool" where
  "field_empty ex field =
     and_then (label_of ex field) (\<lambda>v.
       if \<not> truthy v then Inr True
       else and_then (label_of ex field) (\<lambda>v'.
            and_then (py_strip v') (\<lambda>s. Inr (\<not> truthy s))))"

text \<open>Lines 50 to 53: the loop over \<^verbatim>\<open>all_fields\<close>; it does not stop at the first empty field.\<close>

fun fields_loop :: "example \<Rightarrow> string list \<Rightarrow> bool \<Rightarrow> error + bool" where
  "fields_loop ex [] all_fields_non_empty = Inr all_fields_non_empty"
| "fields_loop ex (field # rest) all_fields_non_empty =
     and_then (field_empty ex field) (\<lambda>empty.
       fields_loop ex rest (if empty then False else all_fields_non_empty))"

text \<open>
  Lines 46 to 55: the loop over \<^verbatim>\<open>range(len(features))\<close>, carrying the list (whose examples
  it updates) and \<^verbatim>\<open>valid_idxs\<close>; \<^verbatim>\<open>all_fields\<close> is line 49.
\<close>

definition all_fields :: "string \<Rightarrow> string \<Rightarrow> string list" where
  "all_fields inp out = split CHR ''+'' inp @ split CHR ''+'' out"

fun samples_loop ::
  "string \<Rightarrow> string \<Rightarrow> nat list \<Rightarrow> example list \<times> nat list \<Rightarrow> error + (example list \<times> nat list)"
where
  "samples_loop inp out [] st = Inr st"
| "samples_loop inp out (i # is) (feats, valid_idxs) =
     (let ex = inject_utterance (feats ! i)
      in and_then (fields_loop ex (all_fields inp out) True) (\<lambda>all_fields_non_empty.
           samples_loop inp out is
             (feats[i := ex], if all_fields_non_empty then valid_idxs @ [i] else valid_idxs)))"

definition valid_idxs_of :: "string \<Rightarrow> string \<Rightarrow> example list \<Rightarrow> error + (example list \<times> nat list)" where
  "valid_idxs_of inp out feats = samples_loop inp out [0..<length feats] (feats, [])"

definition remove_invalid_samples :: "string \<Rightarrow> string \<Rightarrow> example list \<Rightarrow> error + example list" where
  "remove_invalid_samples inp out feats =
     and_then (valid_idxs_of inp out feats) (\<lambda>(feats', valid_idxs).
       Inr (map (\<lambda>i. feats' ! i) valid_idxs))"

text \<open>
  \<^verbatim>\<open>__init__\<close>, lines 30 to 43. The split is a string or a collection holding one; the
  processor is its data directory, read through the file system.
\<close>

definition normalize_split :: "pyval \<Rightarrow> error + pyval" where
  "normalize_split dataset_split =
     (if \<not> is_str dataset_split then getitem0 dataset_split else Inr dataset_split)"

fun processor_examples ::
  "(pyval \<Rightarrow> error + pyval) \<Rightarrow> (string \<Rightarrow> error + pyval) \<Rightarrow> string \<Rightarrow> pyval \<Rightarrow> error + example list"
where
  "processor_examples literal_eval fs data_dir (PStr s) = get_dialog_examples literal_eval fs data_dir s"
| "processor_examples literal_eval fs data_dir (PList xs) = Inl TypeError"
| "processor_examples literal_eval fs data_dir (PDict d) = Inl TypeError"
| "processor_examples literal_eval fs data_dir v = Inl KeyError"

definition init ::
  "(pyval \<Rightarrow> error + pyval) \<Rightarrow> (string \<Rightarrow> error + pyval) \<Rightarrow> pyval \<Rightarrow> string \<Rightarrow> cfg \<Rightarrow> error + dataset"
where
  "init literal_eval fs dataset_split data_dir c =
     and_then (normalize_split dataset_split) (\<lambda>split'.
     and_then (processor_examples literal_eval fs data_dir split') (\<lambda>feats.
     and_then (remove_invalid_samples (input_field c) (output_field c) feats) (\<lambda>feats'.
       Inr \<lparr> ds_cfg = c,
             input_label_type = input_field c,
             output_label_type = output_field c,
             features = (if debug_mode c then take 16 feats' else feats') \<rparr>)))"

text \<open>\<^verbatim>\<open>__len__\<close>.\<close>

definition len :: "dataset \<Rightarrow> nat" where
  "len ds = length (features ds)"

text \<open>
  \<^verbatim>\<open>default_encode\<close>: the two squeezed tensors, as rows of integers (for a length of 1
  the squeezed tensor is a scalar: it is the row of its one element here).
\<close>

definition default_encode :: "tokenizer \<Rightarrow> nat \<Rightarrow> pyval \<Rightarrow> error + (int list \<times> int list)" where
  "default_encode tok max_len sentence =
     and_then (encode tok sentence max_len) (\<lambda>(input_ids, attn_masks).
       Inr (map int input_ids, map int attn_masks))"

text \<open>
  \<^verbatim>\<open>format_prompt\<close>: the fragment of one part (string concatenation raises on a value
  that is not a string), and the prompt; the example comes back with the utterance
  stored among its labels.
\<close>

definition fragment :: "example \<Rightarrow> string \<Rightarrow> error + string" where
  "fragment ex part =
     and_then (label_of ex part) (\<lambda>v.
       case v of PStr s \<Rightarrow> Inr (part @ '': '' @ s) | _ \<Rightarrow> Inl TypeError)"

definition format_prompt :: "string \<Rightarrow> example \<Rightarrow> error + (example \<times> string)" where
  "format_prompt inp ex =
     (let ex' = inject_utterance ex;
          parts = split CHR ''+'' inp
      in and_then (map_err (fragment ex') parts) (\<lambda>frags. Inr (ex', join '' '' frags)))"

text \<open>\<^verbatim>\<open>self.features[idx]\<close>: a negative index counts from the end.\<close>

definition feature_at :: "example list \<Rightarrow> int \<Rightarrow> error + (nat \<times> example)" where
  "feature_at feats idx =
     (let n = int (length feats);
          j = (if idx < 0 then n + idx else idx)
      in if 0 \<le> j \<and> j < n then Inr (nat j, feats ! nat j) else Inl IndexError)"

text \<open>Line 112: \<^verbatim>\<open>labels[labels == pad_token_id] = -100\<close>.\<close>

definition mask_padding :: "int \<Rightarrow> int list \<Rightarrow> int list" where
  "mask_padding pad ids = map (\<lambda>t. if t = pad then - 100 else t) ids"

text \<open>
  \<^verbatim>\<open>__getitem__\<close>: the dataset after the call (the example at \<open>idx\<close> has its utterance
  among its labels) and the triple of input ids, attention mask and labels.
\<close>

definition getitem ::
  "tokenizer \<Rightarrow> dataset \<Rightarrow> int \<Rightarrow> error + (dataset \<times> int list \<times> int list \<times> int list)"
where
  "getitem tok ds idx =
     and_then (feature_at (features ds) idx) (\<lambda>(j, ex).
     and_then (format_prompt (input_label_type ds) ex) (\<lambda>(ex', input_sentence).
     and_then (label_of ex' (output_label_type ds)) (\<lambda>output_sentence.
     and_then (default_encode tok (max_seq_length (ds_cfg ds)) (PStr input_sentence)) (\<lambda>(input_ids, attn_masks).
     and_then (default_encode tok (max_seq_length (ds_cfg ds)) output_sentence) (\<lambda>(target, target_masks).
       Inr (ds\<lparr>features := (features ds)[j := ex']\<rparr>,
            input_ids, attn_masks, mask_padding (pad_token_id tok) target))))))"

text \<open>
  The words of the specification for the filter: an example holds a text in a field when
  its label there is a string that is not empty and not made of whitespace only (a
  missing key, \<^verbatim>\<open>None\<close> and any other value hold none). The loop reads a label
  without error when it is there and is a string or a value that counts as false.
\<close>

definition holds_text :: "example \<Rightarrow> string \<Rightarrow> bool" where
  "holds_text ex field =
     (case map_of (labels ex) field of
        Some (PStr s) \<Rightarrow> s \<noteq> [] \<and> \<not> list_all is_space s
      | _ \<Rightarrow> False)"

definition plain_label :: "example \<Rightarrow> string \<Rightarrow> bool" where
  "plain_label ex field =
     (case map_of (labels ex) field of None \<Rightarrow> False | Some v \<Rightarrow> \<not> truthy v \<or> is_str v)"

definition retained :: "string \<Rightarrow> string \<Rightarrow> example \<Rightarrow> bool" where
  "retained inp out ex = (\<forall>f\<in>set (all_fields inp out). holds_text (inject_utterance ex) f)"

text \<open>Examples for concrete runs of the dataset.\<close>

definition blank_response_example :: example where
  "blank_response_example =
     \<lparr> utterance = PStr ''who'', example_id = 7,
       labels = [(''service'', PStr ''PERSON''), (''response'', PStr [CHR '' '', CHR 0x09, CHR 0xA0]),
                 (''fluent_response'', PNone), (''passage'', PStr ''second'')],
       possible_labels = [(''service'', service_labels),
                          (''passage'', PList [PStr ''first'', PStr ''second''])] \<rparr>"

definition empty_utterance_example :: example where
  "empty_utterance_example =
     \<lparr> utterance = PStr '''', example_id = 8,
       labels = [(''service'', PStr ''PERSON''), (''response'', PStr ''me''),
                 (''fluent_response'', PNone), (''passage'', PStr ''second'')],
       possible_labels = [(''service'', service_labels),
                          (''passage'', PList [PStr ''first'', PStr ''second''])] \<rparr>"

definition sample_features :: "example list" where
  "sample_features =
     [sample_unselected_example, sample_example 0, blank_response_example,
      empty_utterance_example, sample_mixed_example]"

text \<open>
  A tokenizer, a configuration and a dataset for concrete runs. The tokenizer gives
  each character its code less 32 (so the space is token 0), truncates and pads with 0
  to the length asked for, and has padding id 0: a space in a target is a genuine token
  whose id is the padding id.
\<close>

definition sample_tokenizer :: tokenizer where
  "sample_tokenizer =
     \<lparr> encode = (\<lambda>text max_length.
          case text of
            PStr s \<Rightarrow>
              Inr (take max_length (map (\<lambda>c. of_char c - 32) s) @ replicate (max_length - length s) 0,
                   replicate (min max_length (length s)) 1 @ replicate (max_length - length s) 0)
          | _ \<Rightarrow> Inl ValueError),
       pad_token_id = 0 \<rparr>"

definition sample_cfg :: cfg where
  "sample_cfg = \<lparr> input_field = ''passage+utterance'', output_field = ''response'',
                  max_seq_length = 4, debug_mode = True \<rparr>"

definition fluent_dataset :: dataset where
  "fluent_dataset =
     \<lparr> ds_cfg = \<lparr> input_field = ''utterance'', output_field = ''fluent_response'',
                  max_seq_length = 12, debug_mode = False \<rparr>,
       input_label_type = ''utterance'',
       output_label_type = ''fluent_response'',
       features = [sample_example 0, sample_mixed_example] \<rparr>"

text \<open>
  The words of the specification for the prompt: the text of a label, and the fragments
  \<^verbatim>\<open>field: value\<close> of the parts of the input field, joined by single spaces.
\<close>

definition label_text :: "example \<Rightarrow> string \<Rightarrow> string" where
  "label_text ex field = (case map_of (labels ex) field of Some (PStr s) \<Rightarrow> s | _ \<Rightarrow> [])"

definition prompt_of :: "string \<Rightarrow> example \<Rightarrow> string" where
  "prompt_of inp ex =
     join '' '' (map (\<lambda>f. f @ '': '' @ label_text (inject_utterance ex) f) (split CHR ''+'' inp))"

section \<open>Basic facts\<close>

lemma and_then_Inr [simp]: "and_then (Inr x) f = f x"
  by (simp add: and_then_def)

lemma and_then_Inl [simp]: "and_then (Inl e) f = Inl e"
  by (simp add: and_then_def)

lemma and_then_eq_Inr: "and_then m f = Inr y \<longleftrightarrow> (\<exists>x. m = Inr x \<and> f x = Inr y)"
  by (cases m) simp_all

lemma map_err_Inr: "map_err f xs = Inr ys \<longleftrightarrow> list_all2 (\<lambda>x y. f x = Inr y) xs ys"
proof (induction xs arbitrary: ys)
  case Nil
  show ?case by auto
next
  case (Cons x xs)
  show ?case
    by (cases ys) (auto simp: and_then_eq_Inr Cons.IH)
qed

lemma fold_append_filter:
  "fold (\<lambda>x acc. if P x then acc @ [x] else acc) xs acc = acc @ filter P xs"
  by (induction xs arbitrary: acc) simp_all

lemma train_idxs_filter: "train_idxs n = filter (\<lambda>i. i mod 10 \<noteq> 0) [0..<n]"
  by (simp add: train_idxs_def fold_append_filter)

lemma dev_idxs_filter: "dev_idxs n = filter (\<lambda>i. i mod 10 = 0) [0..<n]"
  by (simp add: dev_idxs_def fold_append_filter)

lemma length_dev_idxs: "length (dev_idxs n) = (n + 9) div 10"
proof (induction n)
  case 0
  show ?case by (simp add: dev_idxs_filter)
next
  case (Suc n)
  have "length (dev_idxs (Suc n)) = length (dev_idxs n) + (if n mod 10 = 0 then 1 else 0)"
    by (simp add: dev_idxs_filter)
  also have "\<dots> = (Suc n + 9) div 10"
    unfolding Suc.IH by presburger
  finally show ?case .
qed

lemma length_train_dev: "length (train_idxs n) + length (dev_idxs n) = n"
  using sum_length_filter_compl [of "\<lambda>i. i mod 10 = 0" "[0..<n]"]
  by (simp add: train_idxs_filter dev_idxs_filter add.commute)

lemma build_example_id: "build_example lit raw i = Inr ex \<Longrightarrow> example_id ex = i"
  by (auto simp: build_example_def and_then_eq_Inr)

lemma map_err_build_ids:
  "map_err (build_example lit raw) idxs = Inr exs \<Longrightarrow> map example_id exs = idxs"
proof (induction idxs arbitrary: exs)
  case Nil
  then show ?case by simp
next
  case (Cons i idxs)
  then show ?case by (auto simp: and_then_eq_Inr build_example_id)
qed

lemma get_dialog_examples_ids:
  assumes "get_dialog_examples lit fs data_dir sp = Inr exs"
  shows "\<exists>name raw answers n idxs.
           source_name sp = Inr name \<and>
           open_json fs data_dir (name @ ''_v2.1.json'') = Inr raw \<and>
           getitem_str raw ''answers'' = Inr answers \<and>
           py_len answers = Inr n \<and>
           split_idxs sp n = Inr idxs \<and>
           map example_id exs = idxs"
  using assms unfolding get_dialog_examples_def and_then_eq_Inr
  by (blast dest: map_err_build_ids)

lemma source_name_simps:
  "source_name ''train'' = Inr ''train''"
  "source_name ''dev'' = Inr ''train''"
  "source_name ''test'' = Inr ''dev''"
  by (simp_all add: source_name_def dataset_split_print_def)

lemma split_idxs_simps:
  "split_idxs ''train'' n = Inr (train_idxs n)"
  "split_idxs ''dev'' n = Inr (dev_idxs n)"
  "split_idxs ''test'' n = Inr [0..<n]"
  by (simp_all add: split_idxs_def)

lemma sample_train:
  "get_dialog_examples sample_literal_eval (sample_fs 11 3) ''data'' ''train'' =
     Inr (map sample_example [1, 2, 3, 4, 5, 6, 7, 8, 9])"
  by code_simp

lemma sample_dev:
  "get_dialog_examples sample_literal_eval (sample_fs 11 3) ''data'' ''dev'' =
     Inr (map sample_example [0, 10])"
  by code_simp

lemma sample_test:
  "get_dialog_examples sample_literal_eval (sample_fs 11 3) ''data'' ''test'' =
     Inr (map sample_example [0, 1, 2])"
  by code_simp

lemma get_dialog_examples_file:
  "get_dialog_examples lit fs data_dir sp =
   get_dialog_examples lit (\<lambda>p. and_then (source_name sp) (\<lambda>name. fs (path_join data_dir (name @ ''_v2.1.json'')))) data_dir sp"
  by (cases "source_name sp") (simp_all add: get_dialog_examples_def open_json_def)

lemma getitem_str_Inr:
  "getitem_str c k = Inr v \<longleftrightarrow> (\<exists>d. c = PDict d \<and> map_of d k = Some v)"
  by (cases c) (auto split: option.splits)

lemma py_int_flag_value: "py_int flag = Inr n \<longleftrightarrow> flag_value flag = Some n"
  by (cases flag) (auto simp: flag_value_def split: sum.splits)

lemma selected_text_Inr:
  "selected_text c = Inr ts \<Longrightarrow> ts = (if is_flagged c then [passage_text c] else [])"
  by (auto simp: selected_text_def is_flagged_def passage_text_def and_then_eq_Inr
      getitem_str_Inr py_int_flag_value split: if_splits option.splits)

lemma selected_text_well_formed:
  assumes "well_formed_candidate c"
  shows "selected_text c = Inr (if is_flagged c then [passage_text c] else [])"
proof -
  from assms obtain d flag n t where c: "c = PDict d"
    and fl: "map_of d ''is_selected'' = Some flag" "flag_value flag = Some n"
    and t: "map_of d ''passage_text'' = Some t"
    by (auto simp: well_formed_candidate_def split: pyval.splits option.splits)
  from fl(2) have "py_int flag = Inr n" by (simp add: py_int_flag_value)
  with c fl t show ?thesis
    by (simp add: selected_text_def is_flagged_def passage_text_def)
qed

lemma passage_text_well_formed:
  "well_formed_candidate c \<Longrightarrow> getitem_str c ''passage_text'' = Inr (passage_text c)"
  by (auto simp: well_formed_candidate_def passage_text_def split: pyval.splits option.splits)

lemma well_formed_candidate_iff:
  "well_formed_candidate c \<longleftrightarrow>
     (\<exists>ts t. selected_text c = Inr ts \<and> getitem_str c ''passage_text'' = Inr t)"
proof
  assume "well_formed_candidate c"
  then show "\<exists>ts t. selected_text c = Inr ts \<and> getitem_str c ''passage_text'' = Inr t"
    using selected_text_well_formed passage_text_well_formed by blast
next
  assume "\<exists>ts t. selected_text c = Inr ts \<and> getitem_str c ''passage_text'' = Inr t"
  then show "well_formed_candidate c"
    by (auto simp: selected_text_def well_formed_candidate_def and_then_eq_Inr getitem_str_Inr
        py_int_flag_value split: option.splits if_splits)
qed

lemma map_err_map:
  "\<forall>x\<in>set xs. f x = Inr (g x) \<Longrightarrow> map_err f xs = Inr (map g xs)"
  by (induction xs) simp_all

lemma map_err_selected:
  "map_err selected_text cs = Inr tss \<Longrightarrow> concat tss = map passage_text (filter is_flagged cs)"
proof (induction cs arbitrary: tss)
  case Nil
  then show ?case by simp
next
  case (Cons c cs)
  then show ?case
    by (auto simp: and_then_eq_Inr dest!: selected_text_Inr)
qed

lemma gold_passages_Inr:
  "gold_passages cs = Inr ps \<Longrightarrow> ps = map passage_text (filter is_flagged cs)"
  by (auto simp: gold_passages_def and_then_eq_Inr dest: map_err_selected)

lemma possible_passages_Inr:
  "possible_passages cs = Inr qs \<Longrightarrow> qs = map passage_text cs"
  unfolding possible_passages_def
proof (induction cs arbitrary: qs)
  case Nil
  then show ?case by simp
next
  case (Cons c cs)
  then show ?case
    by (auto simp: and_then_eq_Inr passage_text_def getitem_str_Inr split: option.splits)
qed

lemma gold_passages_well_formed:
  assumes "\<forall>c\<in>set cs. well_formed_candidate c"
  shows "gold_passages cs = Inr (map passage_text (filter is_flagged cs))"
proof -
  from assms have "map_err selected_text cs =
      Inr (map (\<lambda>c. if is_flagged c then [passage_text c] else []) cs)"
    by (intro map_err_map) (simp add: selected_text_well_formed)
  then obtain ps where ps: "gold_passages cs = Inr ps"
    by (simp add: gold_passages_def)
  from gold_passages_Inr [OF ps] ps show ?thesis by simp
qed

lemma possible_passages_well_formed:
  "\<forall>c\<in>set cs. well_formed_candidate c \<Longrightarrow> possible_passages cs = Inr (map passage_text cs)"
  unfolding possible_passages_def
  by (intro map_err_map) (simp add: passage_text_well_formed)

lemma map_err_member:
  "map_err f xs = Inr ys \<Longrightarrow> y \<in> set ys \<Longrightarrow> \<exists>x\<in>set xs. f x = Inr y"
  by (induction xs arbitrary: ys) (auto simp: and_then_eq_Inr)

lemma map_err_total:
  "map_err f xs = Inr ys \<Longrightarrow> x \<in> set xs \<Longrightarrow> \<exists>y. f x = Inr y"
  by (induction xs arbitrary: ys) (auto simp: and_then_eq_Inr)

lemma passages_well_formed:
  assumes "gold_passages cs = Inr ps" and "possible_passages cs = Inr qs"
  shows "\<forall>c\<in>set cs. well_formed_candidate c"
proof
  fix c assume c: "c \<in> set cs"
  from assms(1) c obtain ts where "selected_text c = Inr ts"
    by (auto simp: gold_passages_def and_then_eq_Inr dest: map_err_total)
  moreover from assms(2) c obtain t where "getitem_str c ''passage_text'' = Inr t"
    unfolding possible_passages_def by (blast dest: map_err_total)
  ultimately show "well_formed_candidate c"
    unfolding well_formed_candidate_iff by blast
qed

lemma first_or_none_map:
  "first_or_none (map f xs) = (case xs of [] \<Rightarrow> PNone | x # rest \<Rightarrow> f x)"
  by (cases xs) simp_all

lemma build_example_Inr:
  assumes "build_example lit raw i = Inr ex"
  shows "\<exists>utt answer0 answer wfa0 wfa qt cp cands.
           raw_field raw ''query'' i = Inr utt \<and>
           raw_field raw ''answers'' i = Inr answer0 \<and>
           first_answer answer0 = Inr answer \<and>
           raw_field raw ''wellFormedAnswers'' i = Inr wfa0 \<and>
           first_well_formed lit wfa0 = Inr wfa \<and>
           raw_field raw ''query_type'' i = Inr qt \<and>
           raw_field raw ''passages'' i = Inr cp \<and>
           py_iter cp = Inr cands \<and>
           (\<forall>c\<in>set cands. well_formed_candidate c) \<and>
           ex = \<lparr> utterance = utt, example_id = i,
                  labels = [(''service'', qt), (''response'', answer), (''fluent_response'', wfa),
                            (''passage'', first_or_none (map passage_text (filter is_flagged cands)))],
                  possible_labels = [(''service'', service_labels),
                                     (''passage'', PList (map passage_text cands))] \<rparr>"
proof -
  from assms obtain utt answer0 answer wfa0 wfa qt cp cands ps qs where
    f: "raw_field raw ''query'' i = Inr utt"
       "raw_field raw ''answers'' i = Inr answer0"
       "first_answer answer0 = Inr answer"
       "raw_field raw ''wellFormedAnswers'' i = Inr wfa0"
       "first_well_formed lit wfa0 = Inr wfa"
       "raw_field raw ''query_type'' i = Inr qt"
       "raw_field raw ''passages'' i = Inr cp"
       "py_iter cp = Inr cands"
    and g: "gold_passages cands = Inr ps" and p: "possible_passages cands = Inr qs"
    and ex: "ex = \<lparr> utterance = utt, example_id = i,
                  labels = [(''service'', qt), (''response'', answer), (''fluent_response'', wfa),
                            (''passage'', first_or_none ps)],
                  possible_labels = [(''service'', service_labels), (''passage'', PList qs)] \<rparr>"
    unfolding build_example_def and_then_eq_Inr by auto
  from passages_well_formed [OF g p] gold_passages_Inr [OF g] possible_passages_Inr [OF p] f ex
  show ?thesis by blast
qed

lemma build_example_well_formed:
  assumes "raw_field raw ''query'' i = Inr utt"
    and "raw_field raw ''answers'' i = Inr answer0"
    and "first_answer answer0 = Inr answer"
    and "raw_field raw ''wellFormedAnswers'' i = Inr wfa0"
    and "first_well_formed lit wfa0 = Inr wfa"
    and "raw_field raw ''query_type'' i = Inr qt"
    and "raw_field raw ''passages'' i = Inr cp"
    and "py_iter cp = Inr cands"
    and "\<forall>c\<in>set cands. well_formed_candidate c"
  shows "build_example lit raw i =
           Inr \<lparr> utterance = utt, example_id = i,
                 labels = [(''service'', qt), (''response'', answer), (''fluent_response'', wfa),
                           (''passage'', first_or_none (map passage_text (filter is_flagged cands)))],
                 possible_labels = [(''service'', service_labels),
                                    (''passage'', PList (map passage_text cands))] \<rparr>"
  using assms(1-8) gold_passages_well_formed [OF assms(9)] possible_passages_well_formed [OF assms(9)]
  by (simp add: build_example_def)

lemma is_digit_digit_char: "d < 10 \<Longrightarrow> is_digit (digit_char d)"
  by (simp add: is_digit_def digit_char_def)

lemma of_char_digit_char: "d < 10 \<Longrightarrow> of_char (digit_char d) - 48 = d"
  by (simp add: digit_char_def)

lemma digits_value_snoc:
  "digits_value xs acc b = Inr r \<Longrightarrow> is_digit c \<Longrightarrow>
   digits_value (xs @ [c]) acc b = Inr (10 * r + (of_char c - 48))"
  by (induction xs acc b rule: digits_value.induct) (auto split: if_splits)

lemma digits_value_str_of_nat: "digits_value (str_of_nat n) 0 b = Inr n"
proof (induction n arbitrary: b rule: str_of_nat.induct)
  case (1 n)
  show ?case
  proof (cases "n < 10")
    case True
    then show ?thesis
      by (subst str_of_nat.simps) (simp add: is_digit_digit_char of_char_digit_char)
  next
    case False
    then have "digits_value (str_of_nat (n div 10)) 0 b = Inr (n div 10)"
      using "1" by simp
    from digits_value_snoc [OF this, of "digit_char (n mod 10)"]
    have "digits_value (str_of_nat (n div 10) @ [digit_char (n mod 10)]) 0 b = Inr n"
      by (simp add: is_digit_digit_char of_char_digit_char)
    with False show ?thesis
      by (subst str_of_nat.simps) simp
  qed
qed

lemma digit_not_int_space: "is_digit c \<Longrightarrow> \<not> is_int_space c"
  by (auto simp: is_digit_def is_int_space_def)

lemma str_of_nat_digits: "str_of_nat n \<noteq> [] \<and> (\<forall>c\<in>set (str_of_nat n). is_digit c)"
proof (induction n rule: str_of_nat.induct)
  case (1 n)
  show ?case
  proof (cases "n < 10")
    case True
    then show ?thesis
      by (subst (1 2) str_of_nat.simps) (simp add: is_digit_digit_char)
  next
    case False
    with "1" show ?thesis
      by (subst (1 2) str_of_nat.simps) (auto simp: is_digit_digit_char)
  qed
qed

lemma int_strip_digits:
  assumes "s \<noteq> []" and "\<forall>c\<in>set s. is_digit c"
  shows "int_strip s = s"
proof -
  from assms have h: "\<not> is_int_space (hd s)" and l: "\<not> is_int_space (last s)"
    by (auto simp: digit_not_int_space)
  from assms(1) h have "dropWhile is_int_space s = s"
    by (cases s) simp_all
  moreover from assms(1) l have "dropWhile is_int_space (rev s) = rev s"
    by (cases "rev s") (simp_all add: last_rev [symmetric] del: last_rev)
  ultimately show ?thesis by (simp add: int_strip_def)
qed

lemma int_of_str_str_of_nat: "int_of_str (str_of_nat n) = Inr (int n)"
proof -
  from str_of_nat_digits [of n] obtain c cs where s: "str_of_nat n = c # cs" and d: "is_digit c"
    by (cases "str_of_nat n") auto
  from d have "c \<noteq> CHR ''-''" "c \<noteq> CHR ''+''"
    by (auto simp: is_digit_def)
  moreover have "int_strip (str_of_nat n) = c # cs"
    using int_strip_digits [of "str_of_nat n"] str_of_nat_digits [of n] s by simp
  moreover have "digits_value (c # cs) 0 False = Inr n"
    using digits_value_str_of_nat [of n False] s by simp
  ultimately show ?thesis
    by (simp add: int_of_str_def)
qed

lemma int_of_str_samples:
  "int_of_str ''1'' = Inr 1"
  "int_of_str '' 0 '' = Inr 0"
  "int_of_str ''-12'' = Inr (- 12)"
  "int_of_str ''+1_000'' = Inr 1000"
  "int_of_str [CHR 0x1F, CHR ''1''] = Inl ValueError"
  "int_of_str [CHR 0xA0, CHR ''1''] = Inr 1"
  "int_of_str ''1__0'' = Inl ValueError"
  "int_of_str '''' = Inl ValueError"
  "int_of_str ''0x1'' = Inl ValueError"
  by code_simp+

lemma first_answer_answer_of: "first_answer a0 = Inr a \<longleftrightarrow> answer_of a0 = Some a"
proof (cases a0)
  case (PList xs)
  then show ?thesis
    by (cases xs) (simp_all add: first_answer_def answer_of_def)
qed (auto simp: first_answer_def answer_of_def)

lemma first_or_absent_none: "first_or_none xs = first_or_absent xs"
  by (cases xs) (simp_all add: first_or_absent_def)

lemma first_well_formed_list:
  "(if is_list w0 then w0 = PList coll else lit w0 = Inr (PList coll)) \<Longrightarrow>
   first_well_formed lit w0 = Inr (first_or_absent coll)"
  by (cases coll) (auto simp: first_well_formed_def first_or_absent_def split: if_splits)

lemma py_iter_list [simp]: "py_iter (PList cands) = Inr cands"
  by simp

lemma sample_mixed_fields:
  "raw_field sample_mixed ''query'' 0 = Inr (PStr ''who'')"
  "raw_field sample_mixed ''answers'' 0 = Inr (PStr ''me'')"
  "raw_field sample_mixed ''wellFormedAnswers'' 0 = Inr (PStr ''['It is me.', 'Me.']'')"
  "raw_field sample_mixed ''query_type'' 0 = Inr (PStr ''PERSON'')"
  "raw_field sample_mixed ''passages'' 0 =
     Inr (PList [PDict [(''is_selected'', PStr '' 0 ''), (''passage_text'', PStr ''first'')],
                 PDict [(''is_selected'', PBool False), (''passage_text'', PStr ''second'')],
                 PDict [(''passage_text'', PStr ''third''), (''is_selected'', PStr ''1'')],
                 PDict [(''is_selected'', PInt 2), (''passage_text'', PStr ''fourth'')],
                 PDict [(''is_selected'', PBool True), (''passage_text'', PStr ''fifth'')]])"
  by code_simp+

lemma sample_mixed_candidates:
  "\<forall>c\<in>set [PDict [(''is_selected'', PStr '' 0 ''), (''passage_text'', PStr ''first'')],
              PDict [(''is_selected'', PBool False), (''passage_text'', PStr ''second'')],
              PDict [(''passage_text'', PStr ''third''), (''is_selected'', PStr ''1'')],
              PDict [(''is_selected'', PInt 2), (''passage_text'', PStr ''fourth'')],
              PDict [(''is_selected'', PBool True), (''passage_text'', PStr ''fifth'')]].
     well_formed_candidate c"
  by code_simp

lemma sample_mixed_flagged:
  "filter is_flagged
     [PDict [(''is_selected'', PStr '' 0 ''), (''passage_text'', PStr ''first'')],
      PDict [(''is_selected'', PBool False), (''passage_text'', PStr ''second'')],
      PDict [(''passage_text'', PStr ''third''), (''is_selected'', PStr ''1'')],
      PDict [(''is_selected'', PInt 2), (''passage_text'', PStr ''fourth'')],
      PDict [(''is_selected'', PBool True), (''passage_text'', PStr ''fifth'')]] =
   [PDict [(''passage_text'', PStr ''third''), (''is_selected'', PStr ''1'')],
    PDict [(''is_selected'', PInt 2), (''passage_text'', PStr ''fourth'')],
    PDict [(''is_selected'', PBool True), (''passage_text'', PStr ''fifth'')]]"
  by code_simp

lemma sample_mixed_texts:
  "map passage_text
     [PDict [(''is_selected'', PStr '' 0 ''), (''passage_text'', PStr ''first'')],
      PDict [(''is_selected'', PBool False), (''passage_text'', PStr ''second'')],
      PDict [(''passage_text'', PStr ''third''), (''is_selected'', PStr ''1'')],
      PDict [(''is_selected'', PInt 2), (''passage_text'', PStr ''fourth'')],
      PDict [(''is_selected'', PBool True), (''passage_text'', PStr ''fifth'')]] =
   [PStr ''first'', PStr ''second'', PStr ''third'', PStr ''fourth'', PStr ''fifth'']"
  "passage_text (PDict [(''passage_text'', PStr ''third''), (''is_selected'', PStr ''1'')]) = PStr ''third''"
  by code_simp+

lemma sample_mixed_answers:
  "first_answer (PStr ''me'') = Inr (PStr ''me'')"
  "first_well_formed sample_literal_eval (PStr ''['It is me.', 'Me.']'') = Inr (PStr ''It is me.'')"
  by code_simp+

lemma sample_mixed_build:
  "build_example sample_literal_eval sample_mixed 0 = Inr sample_mixed_example"
  by code_simp

lemma sample_unselected_build:
  "build_example sample_literal_eval sample_unselected 0 = Inr sample_unselected_example"
  by code_simp

lemma sample_build:
  "build_example sample_literal_eval (sample_corpus 3) 1 = Inr (sample_example 1)"
  by code_simp

lemma sample_corpus_fields:
  "raw_field (sample_corpus 3) ''query'' 1 = Inr (PStr ''who'')"
  "raw_field (sample_corpus 3) ''answers'' 1 = Inr (PList [PStr ''me''])"
  "raw_field (sample_corpus 3) ''wellFormedAnswers'' 1 = Inr (PStr ''[]'')"
  "raw_field (sample_corpus 3) ''query_type'' 1 = Inr (PStr ''PERSON'')"
  "raw_field (sample_corpus 3) ''passages'' 1 =
     Inr (PList [PDict [(''is_selected'', PInt 0), (''passage_text'', PStr ''first'')],
                 PDict [(''is_selected'', PInt 1), (''passage_text'', PStr ''second'')]])"
  by code_simp+

lemma sample_corpus_candidates:
  "\<forall>c\<in>set [PDict [(''is_selected'', PInt 0), (''passage_text'', PStr ''first'')],
              PDict [(''is_selected'', PInt 1), (''passage_text'', PStr ''second'')]].
     well_formed_candidate c"
  by code_simp

lemma sample_unparsed_fields:
  "raw_field sample_unparsed ''query'' 0 = Inr (PStr ''who'')"
  "raw_field sample_unparsed ''answers'' 0 = Inr (PStr ''me'')"
  "raw_field sample_unparsed ''wellFormedAnswers'' 0 = Inr (PStr ''[oops'')"
  by code_simp+

lemma sample_literal_eval_values:
  "sample_literal_eval (PStr ''[]'') = Inr (PList [])"
  "sample_literal_eval (PStr ''['It is me.', 'Me.']'') = Inr (PList [PStr ''It is me.'', PStr ''Me.''])"
  "sample_literal_eval (PStr ''[oops'') = Inl SyntaxError"
  by (simp_all add: sample_literal_eval_def)

lemma sample_answer_of:
  "answer_of (PStr ''me'') = Some (PStr ''me'')"
  "answer_of (PList [PStr ''me'']) = Some (PStr ''me'')"
  "answer_of (PList []) = None"
  by (simp_all add: answer_of_def)

lemma service_labels_eq:
  "service_labels = PList [PStr ''LOCATION'', PStr ''NUMERIC'', PStr ''PERSON'',
                           PStr ''DESCRIPTION'', PStr ''ENTITY'']"
  by (simp add: service_labels_def)

lemma first_or_none_member:
  "first_or_none (map f (filter P xs)) \<noteq> PNone \<Longrightarrow>
   first_or_none (map f (filter P xs)) \<in> set (map f xs)"
proof (cases "filter P xs")
  case Nil
  assume "first_or_none (map f (filter P xs)) \<noteq> PNone"
  with Nil show ?thesis by simp
next
  case (Cons y ys)
  then have "y \<in> set (filter P xs)" by simp
  then have "y \<in> set xs" by simp
  with Cons show ?thesis by simp
qed

lemma get_dialog_examples_member:
  assumes "get_dialog_examples lit fs data_dir sp = Inr exs" and "ex \<in> set exs"
  shows "\<exists>raw i. build_example lit raw i = Inr ex"
  using assms unfolding get_dialog_examples_def and_then_eq_Inr
  by (blast dest: map_err_member)

section \<open>Properties of the data processor\<close>

text \<open>
  C1: for a train file whose \<^verbatim>\<open>answers\<close> mapping has \<open>N\<close> entries, the examples of split
  \<^verbatim>\<open>train\<close> are those of the indices of \<open>[0, N)\<close> not divisible by 10 and the examples of
  split \<^verbatim>\<open>dev\<close> those of the indices divisible by 10, in increasing order; the two index
  sets are disjoint, together they are \<open>[0, N)\<close>, their sizes add up to \<open>N\<close>, and the dev set
  has \<open>ceil(N/10)\<close> elements.
\<close>

theorem train_dev_partition:
  assumes src: "open_json fs data_dir ''train_v2.1.json'' = Inr raw"
    and answers: "getitem_str raw ''answers'' = Inr answers"
    and size: "py_len answers = Inr N"
    and train: "get_dialog_examples lit fs data_dir ''train'' = Inr tr"
    and dev: "get_dialog_examples lit fs data_dir ''dev'' = Inr dv"
  shows "map example_id tr = filter (\<lambda>i. i mod 10 \<noteq> 0) [0..<N] \<and>
         map example_id dv = filter (\<lambda>i. i mod 10 = 0) [0..<N] \<and>
         set (map example_id tr) \<inter> set (map example_id dv) = {} \<and>
         set (map example_id tr) \<union> set (map example_id dv) = {0..<N} \<and>
         length tr + length dv = N \<and>
         length dv = (N + 9) div 10"
proof -
  from get_dialog_examples_ids [OF train] src answers size
  have tr_ids: "map example_id tr = train_idxs N"
    by (auto simp: source_name_simps split_idxs_simps)
  from get_dialog_examples_ids [OF dev] src answers size
  have dv_ids: "map example_id dv = dev_idxs N"
    by (auto simp: source_name_simps split_idxs_simps)
  have len_tr: "length tr = length (train_idxs N)"
    using tr_ids by (metis length_map)
  have len_dv: "length dv = length (dev_idxs N)"
    using dv_ids by (metis length_map)
  have disj: "set (train_idxs N) \<inter> set (dev_idxs N) = {}"
    by (auto simp: train_idxs_filter dev_idxs_filter)
  have cover: "set (train_idxs N) \<union> set (dev_idxs N) = {0..<N}"
    by (auto simp: train_idxs_filter dev_idxs_filter)
  show ?thesis
    unfolding tr_ids dv_ids len_tr len_dv
    using disj cover length_train_dev [of N] length_dev_idxs [of N]
    by (simp add: train_idxs_filter dev_idxs_filter)
qed

theorem train_dev_partition_witness:
  "get_dialog_examples sample_literal_eval (sample_fs 11 3) ''data'' ''train'' =
     Inr (map sample_example [1, 2, 3, 4, 5, 6, 7, 8, 9]) \<and>
   get_dialog_examples sample_literal_eval (sample_fs 11 3) ''data'' ''dev'' =
     Inr (map sample_example [0, 10]) \<and>
   map example_id (map sample_example [1, 2, 3, 4, 5, 6, 7, 8, 9]) =
     filter (\<lambda>i. i mod 10 \<noteq> 0) [0..<11] \<and>
   map example_id (map sample_example [0, 10]) = filter (\<lambda>i. i mod 10 = 0) [0..<11] \<and>
   length (map sample_example [1, 2, 3, 4, 5, 6, 7, 8, 9]) + length (map sample_example [0, 10]) = 11 \<and>
   length (map sample_example [0, 10]) = (11 + 9) div 10"
proof -
  have src: "open_json (sample_fs 11 3) ''data'' ''train_v2.1.json'' = Inr (sample_corpus 11)"
    by (simp add: open_json_def path_join_def sample_fs_def)
  have answers: "getitem_str (sample_corpus 11) ''answers'' =
      Inr (PDict (map (\<lambda>i. (str_of_nat i, PList [PStr ''me''])) [0..<11]))"
    by (simp add: sample_corpus_def)
  have size: "py_len (PDict (map (\<lambda>i. (str_of_nat i, PList [PStr ''me''])) [0..<11])) = Inr 11"
    by code_simp
  show ?thesis
    using train_dev_partition [OF src answers size sample_train sample_dev] sample_train sample_dev
    by simp
qed

text \<open>
  C6: split \<^verbatim>\<open>test\<close> reads the \<^verbatim>\<open>dev\<close> file, splits \<^verbatim>\<open>train\<close> and \<^verbatim>\<open>dev\<close> both read the
  \<^verbatim>\<open>train\<close> file (no other path of the file system matters to the result), and the test
  split has one example for each index of \<open>[0, N)\<close>, in order, where \<open>N\<close> is the number of
  entries of the dev file's \<^verbatim>\<open>answers\<close> mapping: no index is left out.
\<close>

theorem test_split_reads_dev_file:
  "source_name ''train'' = Inr ''train'' \<and>
   source_name ''dev'' = Inr ''train'' \<and>
   source_name ''test'' = Inr ''dev'' \<and>
   get_dialog_examples lit fs data_dir ''test'' =
     get_dialog_examples lit (\<lambda>p. fs (path_join data_dir ''dev_v2.1.json'')) data_dir ''test'' \<and>
   get_dialog_examples lit fs data_dir ''train'' =
     get_dialog_examples lit (\<lambda>p. fs (path_join data_dir ''train_v2.1.json'')) data_dir ''train'' \<and>
   get_dialog_examples lit fs data_dir ''dev'' =
     get_dialog_examples lit (\<lambda>p. fs (path_join data_dir ''train_v2.1.json'')) data_dir ''dev'' \<and>
   (\<forall>exs. get_dialog_examples lit fs data_dir ''test'' = Inr exs \<longrightarrow>
      (\<exists>raw answers N.
         open_json fs data_dir ''dev_v2.1.json'' = Inr raw \<and>
         getitem_str raw ''answers'' = Inr answers \<and>
         py_len answers = Inr N \<and>
         map example_id exs = [0..<N] \<and>
         length exs = N))"
proof -
  have ids: "\<exists>raw answers N.
         open_json fs data_dir ''dev_v2.1.json'' = Inr raw \<and>
         getitem_str raw ''answers'' = Inr answers \<and>
         py_len answers = Inr N \<and>
         map example_id exs = [0..<N] \<and>
         length exs = N"
    if ok: "get_dialog_examples lit fs data_dir ''test'' = Inr exs" for exs
  proof -
    from get_dialog_examples_ids [OF ok]
    obtain raw answers N where
      "open_json fs data_dir ''dev_v2.1.json'' = Inr raw"
      "getitem_str raw ''answers'' = Inr answers"
      "py_len answers = Inr N"
      and ids: "map example_id exs = [0..<N]"
      by (auto simp: source_name_simps split_idxs_simps)
    moreover from ids have "length exs = N"
      by (metis length_map length_upt minus_nat.diff_0)
    ultimately show ?thesis by blast
  qed
  show ?thesis
    using get_dialog_examples_file [of lit fs data_dir "''test''"]
      get_dialog_examples_file [of lit fs data_dir "''train''"]
      get_dialog_examples_file [of lit fs data_dir "''dev''"] ids
    by (simp add: source_name_simps)
qed

theorem test_split_reads_dev_file_witness:
  "get_dialog_examples sample_literal_eval (sample_fs 11 3) ''data'' ''test'' =
     Inr (map sample_example [0, 1, 2]) \<and>
   (\<exists>raw answers N.
         open_json (sample_fs 11 3) ''data'' ''dev_v2.1.json'' = Inr raw \<and>
         getitem_str raw ''answers'' = Inr answers \<and>
         py_len answers = Inr N \<and>
         map example_id (map sample_example [0, 1, 2]) = [0..<N] \<and>
         length (map sample_example [0, 1, 2]) = N)"
  using test_split_reads_dev_file [of sample_literal_eval "sample_fs 11 3" "''data''"] sample_test
  by blast

text \<open>
  C7: in the example built from a record, \<^verbatim>\<open>labels.passage\<close> is the text of the first
  candidate passage whose \<^verbatim>\<open>is_selected\<close> value, coerced to an integer, is not zero, and
  is \<^verbatim>\<open>None\<close> when no candidate is flagged; \<^verbatim>\<open>possible_labels.passage\<close> is the list of
  the texts of all candidates. The example is built whenever the other fields are
  extracted and every candidate is well formed, and only then; the coercion of the
  code is the integer value of the flag, a decimal numeral being read as its number.
\<close>

theorem gold_passage_selection:
  "(raw_field raw ''query'' i = Inr utt \<and>
    raw_field raw ''answers'' i = Inr answer0 \<and>
    first_answer answer0 = Inr answer \<and>
    raw_field raw ''wellFormedAnswers'' i = Inr wfa0 \<and>
    first_well_formed lit wfa0 = Inr wfa \<and>
    raw_field raw ''query_type'' i = Inr qt \<and>
    raw_field raw ''passages'' i = Inr (PList cands) \<and>
    (\<forall>c\<in>set cands. well_formed_candidate c) \<longrightarrow>
      (\<exists>ex. build_example lit raw i = Inr ex \<and>
            map_of (labels ex) ''passage'' =
              Some (case filter is_flagged cands of [] \<Rightarrow> PNone | c # rest \<Rightarrow> passage_text c) \<and>
            map_of (possible_labels ex) ''passage'' = Some (PList (map passage_text cands)))) \<and>
   (\<forall>ex. build_example lit raw i = Inr ex \<longrightarrow>
      (\<exists>cp cs.
         raw_field raw ''passages'' i = Inr cp \<and>
         py_iter cp = Inr cs \<and>
         (\<forall>c\<in>set cs. well_formed_candidate c) \<and>
         map_of (labels ex) ''passage'' =
           Some (case filter is_flagged cs of [] \<Rightarrow> PNone | c # rest \<Rightarrow> passage_text c) \<and>
         map_of (possible_labels ex) ''passage'' = Some (PList (map passage_text cs)))) \<and>
   (\<forall>flag n. py_int flag = Inr n \<longleftrightarrow> flag_value flag = Some n) \<and>
   (\<forall>n. py_int (PStr (str_of_nat n)) = Inr (int n))"
proof (intro conjI allI impI)
  assume a: "raw_field raw ''query'' i = Inr utt \<and>
    raw_field raw ''answers'' i = Inr answer0 \<and>
    first_answer answer0 = Inr answer \<and>
    raw_field raw ''wellFormedAnswers'' i = Inr wfa0 \<and>
    first_well_formed lit wfa0 = Inr wfa \<and>
    raw_field raw ''query_type'' i = Inr qt \<and>
    raw_field raw ''passages'' i = Inr (PList cands) \<and>
    (\<forall>c\<in>set cands. well_formed_candidate c)"
  then have "build_example lit raw i =
           Inr \<lparr> utterance = utt, example_id = i,
                 labels = [(''service'', qt), (''response'', answer), (''fluent_response'', wfa),
                           (''passage'', first_or_none (map passage_text (filter is_flagged cands)))],
                 possible_labels = [(''service'', service_labels),
                                    (''passage'', PList (map passage_text cands))] \<rparr>"
    by (elim conjE) (rule build_example_well_formed [where cp = "PList cands"], simp_all)
  then show "\<exists>ex. build_example lit raw i = Inr ex \<and>
            map_of (labels ex) ''passage'' =
              Some (case filter is_flagged cands of [] \<Rightarrow> PNone | c # rest \<Rightarrow> passage_text c) \<and>
            map_of (possible_labels ex) ''passage'' = Some (PList (map passage_text cands))"
    by (simp add: first_or_none_map)
next
  fix ex assume "build_example lit raw i = Inr ex"
  from build_example_Inr [OF this] obtain cp cs where
    "raw_field raw ''passages'' i = Inr cp" "py_iter cp = Inr cs"
    "\<forall>c\<in>set cs. well_formed_candidate c"
    "map_of (labels ex) ''passage'' = Some (first_or_none (map passage_text (filter is_flagged cs)))"
    "map_of (possible_labels ex) ''passage'' = Some (PList (map passage_text cs))"
    by auto
  then show "\<exists>cp cs.
         raw_field raw ''passages'' i = Inr cp \<and>
         py_iter cp = Inr cs \<and>
         (\<forall>c\<in>set cs. well_formed_candidate c) \<and>
         map_of (labels ex) ''passage'' =
           Some (case filter is_flagged cs of [] \<Rightarrow> PNone | c # rest \<Rightarrow> passage_text c) \<and>
         map_of (possible_labels ex) ''passage'' = Some (PList (map passage_text cs))"
    by (auto simp: first_or_none_map)
next
  fix flag n show "py_int flag = Inr n \<longleftrightarrow> flag_value flag = Some n"
    by (rule py_int_flag_value)
next
  fix n show "py_int (PStr (str_of_nat n)) = Inr (int n)"
    by (simp add: int_of_str_str_of_nat)
qed

theorem gold_passage_selection_witness:
  "build_example sample_literal_eval sample_mixed 0 = Inr sample_mixed_example \<and>
   map_of (labels sample_mixed_example) ''passage'' = Some (PStr ''third'') \<and>
   map_of (possible_labels sample_mixed_example) ''passage'' =
     Some (PList [PStr ''first'', PStr ''second'', PStr ''third'', PStr ''fourth'', PStr ''fifth'']) \<and>
   (\<exists>ex. build_example sample_literal_eval sample_mixed 0 = Inr ex \<and>
         map_of (labels ex) ''passage'' = Some (PStr ''third'') \<and>
         map_of (possible_labels ex) ''passage'' =
           Some (PList [PStr ''first'', PStr ''second'', PStr ''third'', PStr ''fourth'', PStr ''fifth''])) \<and>
   build_example sample_literal_eval sample_unselected 0 = Inr sample_unselected_example \<and>
   map_of (labels sample_unselected_example) ''passage'' = Some PNone \<and>
   (\<exists>cp cs.
      raw_field sample_unselected ''passages'' 0 = Inr cp \<and> py_iter cp = Inr cs \<and>
      filter is_flagged cs = [] \<and>
      map_of (possible_labels sample_unselected_example) ''passage'' = Some (PList (map passage_text cs))) \<and>
   py_int (PStr ''1'') = Inr 1 \<and> py_int (PStr '' 0 '') = Inr 0 \<and>
   py_int (PBool True) = Inr 1 \<and> py_int (PInt 2) = Inr 2 \<and>
   py_int (PStr [CHR 0x1F, CHR ''1'']) = Inl ValueError \<and>
   py_int (PStr [CHR 0xA0, CHR ''1'']) = Inr 1 \<and>
   py_int PNone = Inl TypeError"
proof -
  note sel = gold_passage_selection [of sample_mixed 0 "PStr ''who''" "PStr ''me''" "PStr ''me''"
      "PStr ''['It is me.', 'Me.']''" sample_literal_eval "PStr ''It is me.''" "PStr ''PERSON''"
      "[PDict [(''is_selected'', PStr '' 0 ''), (''passage_text'', PStr ''first'')],
        PDict [(''is_selected'', PBool False), (''passage_text'', PStr ''second'')],
        PDict [(''passage_text'', PStr ''third''), (''is_selected'', PStr ''1'')],
        PDict [(''is_selected'', PInt 2), (''passage_text'', PStr ''fourth'')],
        PDict [(''is_selected'', PBool True), (''passage_text'', PStr ''fifth'')]]"]
  let ?cands = "[PDict [(''is_selected'', PStr '' 0 ''), (''passage_text'', PStr ''first'')],
        PDict [(''is_selected'', PBool False), (''passage_text'', PStr ''second'')],
        PDict [(''passage_text'', PStr ''third''), (''is_selected'', PStr ''1'')],
        PDict [(''is_selected'', PInt 2), (''passage_text'', PStr ''fourth'')],
        PDict [(''is_selected'', PBool True), (''passage_text'', PStr ''fifth'')]]"
  from sel [THEN conjunct1] sample_mixed_fields sample_mixed_candidates sample_mixed_answers
  have "\<exists>ex. build_example sample_literal_eval sample_mixed 0 = Inr ex \<and>
            map_of (labels ex) ''passage'' =
              Some (case filter is_flagged ?cands of [] \<Rightarrow> PNone | c # rest \<Rightarrow> passage_text c) \<and>
            map_of (possible_labels ex) ''passage'' = Some (PList (map passage_text ?cands))"
    by blast
  then have one: "\<exists>ex. build_example sample_literal_eval sample_mixed 0 = Inr ex \<and>
         map_of (labels ex) ''passage'' = Some (PStr ''third'') \<and>
         map_of (possible_labels ex) ''passage'' =
           Some (PList [PStr ''first'', PStr ''second'', PStr ''third'', PStr ''fourth'', PStr ''fifth''])"
    unfolding sample_mixed_flagged sample_mixed_texts by (simp add: sample_mixed_texts)
  have lab: "map_of (labels sample_mixed_example) ''passage'' = Some (PStr ''third'')"
    "map_of (possible_labels sample_mixed_example) ''passage'' =
     Some (PList [PStr ''first'', PStr ''second'', PStr ''third'', PStr ''fourth'', PStr ''fifth''])"
    "map_of (labels sample_unselected_example) ''passage'' = Some PNone"
    by (simp_all add: sample_mixed_example_def sample_unselected_example_def)
  from gold_passage_selection [of sample_unselected 0 _ _ _ _ sample_literal_eval] sample_unselected_build
  obtain cp cs where
    c: "raw_field sample_unselected ''passages'' 0 = Inr cp" "py_iter cp = Inr cs"
    and q: "map_of (possible_labels sample_unselected_example) ''passage'' = Some (PList (map passage_text cs))"
    by blast
  have cp_eq: "raw_field sample_unselected ''passages'' 0 =
     Inr (PList [PDict [(''is_selected'', PInt 0), (''passage_text'', PStr ''first'')],
                 PDict [(''is_selected'', PStr ''0''), (''passage_text'', PStr ''second'')]])"
    by code_simp
  have cs_eq: "cs = [PDict [(''is_selected'', PInt 0), (''passage_text'', PStr ''first'')],
                 PDict [(''is_selected'', PStr ''0''), (''passage_text'', PStr ''second'')]]"
    using c cp_eq by auto
  have none: "filter is_flagged cs = []"
    unfolding cs_eq by code_simp
  have two: "\<exists>cp cs.
      raw_field sample_unselected ''passages'' 0 = Inr cp \<and> py_iter cp = Inr cs \<and>
      filter is_flagged cs = [] \<and>
      map_of (possible_labels sample_unselected_example) ''passage'' = Some (PList (map passage_text cs))"
    using c none q by blast
  have ints: "py_int (PStr ''1'') = Inr 1" "py_int (PStr '' 0 '') = Inr 0"
    "py_int (PBool True) = Inr 1" "py_int (PInt 2) = Inr 2"
    "py_int (PStr [CHR 0x1F, CHR ''1'']) = Inl ValueError"
    "py_int (PStr [CHR 0xA0, CHR ''1'']) = Inr 1"
    "py_int PNone = Inl TypeError"
    by code_simp+
  from sample_mixed_build lab one sample_unselected_build two ints show ?thesis
    by blast
qed

text \<open>
  C8: \<^verbatim>\<open>labels.response\<close> is the first element of the raw answer when that is a list and
  the raw answer itself otherwise; \<^verbatim>\<open>labels.fluent_response\<close> is the first element of the
  raw well-formed answer, a value that is not a list being given to \<^verbatim>\<open>literal_eval\<close>
  first, and is \<^verbatim>\<open>None\<close> when the collection is empty. The example is built whenever
  the fields are there and the collection is a list; an error of \<^verbatim>\<open>literal_eval\<close> is the
  error of the whole call, and an empty list of answers is an \<^verbatim>\<open>IndexError\<close>.
\<close>

theorem answer_normalisation:
  "(raw_field raw ''query'' i = Inr utt \<and>
    raw_field raw ''answers'' i = Inr answer0 \<and>
    answer_of answer0 = Some answer \<and>
    raw_field raw ''wellFormedAnswers'' i = Inr wfa0 \<and>
    (if is_list wfa0 then wfa0 = PList coll else lit wfa0 = Inr (PList coll)) \<and>
    raw_field raw ''query_type'' i = Inr qt \<and>
    raw_field raw ''passages'' i = Inr (PList cands) \<and>
    (\<forall>c\<in>set cands. well_formed_candidate c) \<longrightarrow>
      (\<exists>ex. build_example lit raw i = Inr ex \<and>
            map_of (labels ex) ''response'' = Some answer \<and>
            map_of (labels ex) ''fluent_response'' = Some (first_or_absent coll))) \<and>
   (\<forall>ex. build_example lit raw i = Inr ex \<longrightarrow>
      (\<exists>answer0 wfa0 c.
         raw_field raw ''answers'' i = Inr answer0 \<and>
         raw_field raw ''wellFormedAnswers'' i = Inr wfa0 \<and>
         map_of (labels ex) ''response'' = answer_of answer0 \<and>
         (if is_list wfa0 then c = wfa0 else lit wfa0 = Inr c) \<and>
         (\<forall>xs. c = PList xs \<longrightarrow>
            map_of (labels ex) ''fluent_response'' = Some (first_or_absent xs)) \<and>
         (if truthy c then
            (\<exists>w. getitem0 c = Inr w \<and> map_of (labels ex) ''fluent_response'' = Some w)
          else map_of (labels ex) ''fluent_response'' = Some PNone))) \<and>
   (\<forall>e. raw_field raw ''query'' i = Inr utt \<and>
      raw_field raw ''answers'' i = Inr answer0 \<and>
      answer_of answer0 = Some answer \<and>
      raw_field raw ''wellFormedAnswers'' i = Inr wfa0 \<and>
      \<not> is_list wfa0 \<and> lit wfa0 = Inl e \<longrightarrow>
      build_example lit raw i = Inl e) \<and>
   (raw_field raw ''query'' i = Inr utt \<and>
      raw_field raw ''answers'' i = Inr answer0 \<and>
      answer_of answer0 = None \<longrightarrow>
      build_example lit raw i = Inl IndexError)"
proof (intro conjI allI impI)
  assume a: "raw_field raw ''query'' i = Inr utt \<and>
    raw_field raw ''answers'' i = Inr answer0 \<and>
    answer_of answer0 = Some answer \<and>
    raw_field raw ''wellFormedAnswers'' i = Inr wfa0 \<and>
    (if is_list wfa0 then wfa0 = PList coll else lit wfa0 = Inr (PList coll)) \<and>
    raw_field raw ''query_type'' i = Inr qt \<and>
    raw_field raw ''passages'' i = Inr (PList cands) \<and>
    (\<forall>c\<in>set cands. well_formed_candidate c)"
  then have fa: "first_answer answer0 = Inr answer"
    by (simp add: first_answer_answer_of)
  from a have fw: "first_well_formed lit wfa0 = Inr (first_or_absent coll)"
    by (intro first_well_formed_list) blast
  from a fa fw have "build_example lit raw i =
           Inr \<lparr> utterance = utt, example_id = i,
                 labels = [(''service'', qt), (''response'', answer),
                           (''fluent_response'', first_or_absent coll),
                           (''passage'', first_or_none (map passage_text (filter is_flagged cands)))],
                 possible_labels = [(''service'', service_labels),
                                    (''passage'', PList (map passage_text cands))] \<rparr>"
    by (elim conjE) (rule build_example_well_formed [where cp = "PList cands"], simp_all)
  then show "\<exists>ex. build_example lit raw i = Inr ex \<and>
            map_of (labels ex) ''response'' = Some answer \<and>
            map_of (labels ex) ''fluent_response'' = Some (first_or_absent coll)"
    by simp
next
  fix ex
  assume "build_example lit raw i = Inr ex"
  from build_example_Inr [OF this] obtain answer0 answer wfa0 wfa where
    a0: "raw_field raw ''answers'' i = Inr answer0"
    and a: "first_answer answer0 = Inr answer"
    and w0: "raw_field raw ''wellFormedAnswers'' i = Inr wfa0"
    and w: "first_well_formed lit wfa0 = Inr wfa"
    and resp: "map_of (labels ex) ''response'' = Some answer"
    and fluent: "map_of (labels ex) ''fluent_response'' = Some wfa"
    by auto
  from w obtain c where
    c: "(if is_list wfa0 then Inr wfa0 else lit wfa0) = Inr c"
    and first: "(if truthy c then getitem0 c else Inr PNone) = Inr wfa"
    by (auto simp: first_well_formed_def and_then_eq_Inr)
  have r: "map_of (labels ex) ''response'' = answer_of answer0"
    using a resp by (simp add: first_answer_answer_of)
  have f0: "if is_list wfa0 then c = wfa0 else lit wfa0 = Inr c"
    using c by (simp split: if_splits)
  have f1: "\<forall>xs. c = PList xs \<longrightarrow>
              map_of (labels ex) ''fluent_response'' = Some (first_or_absent xs)"
  proof (intro allI impI)
    fix xs assume "c = PList xs"
    with first fluent show "map_of (labels ex) ''fluent_response'' = Some (first_or_absent xs)"
      by (cases xs) (simp_all add: first_or_absent_def)
  qed
  have f2: "if truthy c then
              (\<exists>w. getitem0 c = Inr w \<and> map_of (labels ex) ''fluent_response'' = Some w)
            else map_of (labels ex) ''fluent_response'' = Some PNone"
    using first fluent by (simp split: if_splits)
  show "\<exists>answer0 wfa0 c.
         raw_field raw ''answers'' i = Inr answer0 \<and>
         raw_field raw ''wellFormedAnswers'' i = Inr wfa0 \<and>
         map_of (labels ex) ''response'' = answer_of answer0 \<and>
         (if is_list wfa0 then c = wfa0 else lit wfa0 = Inr c) \<and>
         (\<forall>xs. c = PList xs \<longrightarrow>
            map_of (labels ex) ''fluent_response'' = Some (first_or_absent xs)) \<and>
         (if truthy c then
            (\<exists>w. getitem0 c = Inr w \<and> map_of (labels ex) ''fluent_response'' = Some w)
          else map_of (labels ex) ''fluent_response'' = Some PNone)"
    using a0 w0 r f0 f1 f2 by blast
next
  fix e
  assume a: "raw_field raw ''query'' i = Inr utt \<and>
      raw_field raw ''answers'' i = Inr answer0 \<and>
      answer_of answer0 = Some answer \<and>
      raw_field raw ''wellFormedAnswers'' i = Inr wfa0 \<and>
      \<not> is_list wfa0 \<and> lit wfa0 = Inl e"
  then have "first_answer answer0 = Inr answer"
    by (simp add: first_answer_answer_of)
  with a show "build_example lit raw i = Inl e"
    by (simp add: build_example_def first_well_formed_def)
next
  assume a: "raw_field raw ''query'' i = Inr utt \<and>
      raw_field raw ''answers'' i = Inr answer0 \<and>
      answer_of answer0 = None"
  then have "answer0 = PList []"
    by (auto simp: answer_of_def split: pyval.splits list.splits)
  with a show "build_example lit raw i = Inl IndexError"
    by (simp add: build_example_def first_answer_def)
qed

theorem answer_normalisation_witness:
  "(\<exists>ex. build_example sample_literal_eval (sample_corpus 3) 1 = Inr ex \<and>
         raw_field (sample_corpus 3) ''answers'' 1 = Inr (PList [PStr ''me'']) \<and>
         map_of (labels ex) ''response'' = Some (PStr ''me'') \<and>
         raw_field (sample_corpus 3) ''wellFormedAnswers'' 1 = Inr (PStr ''[]'') \<and>
         sample_literal_eval (PStr ''[]'') = Inr (PList []) \<and>
         map_of (labels ex) ''fluent_response'' = Some PNone) \<and>
   (\<exists>ex. build_example sample_literal_eval sample_mixed 0 = Inr ex \<and>
         raw_field sample_mixed ''answers'' 0 = Inr (PStr ''me'') \<and>
         map_of (labels ex) ''response'' = Some (PStr ''me'') \<and>
         raw_field sample_mixed ''wellFormedAnswers'' 0 = Inr (PStr ''['It is me.', 'Me.']'') \<and>
         sample_literal_eval (PStr ''['It is me.', 'Me.']'') =
           Inr (PList [PStr ''It is me.'', PStr ''Me.'']) \<and>
         map_of (labels ex) ''fluent_response'' = Some (PStr ''It is me.'')) \<and>
   build_example sample_literal_eval sample_unselected 0 = Inr sample_unselected_example \<and>
   raw_field sample_unselected ''wellFormedAnswers'' 0 = Inr (PList [PStr ''It is me.'', PStr ''Me.'']) \<and>
   map_of (labels sample_unselected_example) ''fluent_response'' = Some (PStr ''It is me.'') \<and>
   raw_field sample_unparsed ''wellFormedAnswers'' 0 = Inr (PStr ''[oops'') \<and>
   sample_literal_eval (PStr ''[oops'') = Inl SyntaxError \<and>
   build_example sample_literal_eval sample_unparsed 0 = Inl SyntaxError"
proof -
  have nl: "\<not> is_list (PStr ''[]'')" "\<not> is_list (PStr ''['It is me.', 'Me.']'')"
    "\<not> is_list (PStr ''[oops'')"
    by simp_all
  from answer_normalisation [THEN conjunct1, of "sample_corpus 3" 1 "PStr ''who''"
      "PList [PStr ''me'']" "PStr ''me''" "PStr ''[]''" "[]" sample_literal_eval "PStr ''PERSON''"
      "[PDict [(''is_selected'', PInt 0), (''passage_text'', PStr ''first'')],
        PDict [(''is_selected'', PInt 1), (''passage_text'', PStr ''second'')]]"]
    sample_corpus_fields sample_corpus_candidates sample_answer_of sample_literal_eval_values nl
  have one: "\<exists>ex. build_example sample_literal_eval (sample_corpus 3) 1 = Inr ex \<and>
         map_of (labels ex) ''response'' = Some (PStr ''me'') \<and>
         map_of (labels ex) ''fluent_response'' = Some PNone"
    by (simp add: first_or_absent_def)
  from answer_normalisation [THEN conjunct1, of sample_mixed 0 "PStr ''who''"
      "PStr ''me''" "PStr ''me''" "PStr ''['It is me.', 'Me.']''" "[PStr ''It is me.'', PStr ''Me.'']"
      sample_literal_eval "PStr ''PERSON''"
      "[PDict [(''is_selected'', PStr '' 0 ''), (''passage_text'', PStr ''first'')],
        PDict [(''is_selected'', PBool False), (''passage_text'', PStr ''second'')],
        PDict [(''passage_text'', PStr ''third''), (''is_selected'', PStr ''1'')],
        PDict [(''is_selected'', PInt 2), (''passage_text'', PStr ''fourth'')],
        PDict [(''is_selected'', PBool True), (''passage_text'', PStr ''fifth'')]]"]
    sample_mixed_fields sample_mixed_candidates sample_answer_of sample_literal_eval_values nl
  have two: "\<exists>ex. build_example sample_literal_eval sample_mixed 0 = Inr ex \<and>
         map_of (labels ex) ''response'' = Some (PStr ''me'') \<and>
         map_of (labels ex) ''fluent_response'' = Some (PStr ''It is me.'')"
    by (simp add: first_or_absent_def)
  have three: "raw_field sample_unselected ''wellFormedAnswers'' 0 =
      Inr (PList [PStr ''It is me.'', PStr ''Me.''])"
    "map_of (labels sample_unselected_example) ''fluent_response'' = Some (PStr ''It is me.'')"
    by code_simp+
  from answer_normalisation [THEN conjunct2, THEN conjunct2, THEN conjunct1,
      of sample_unparsed 0 "PStr ''who''" "PStr ''me''" "PStr ''me''" "PStr ''[oops''"
      sample_literal_eval]
    sample_unparsed_fields sample_answer_of sample_literal_eval_values nl
  have four: "build_example sample_literal_eval sample_unparsed 0 = Inl SyntaxError"
    by blast
  from one two three four sample_corpus_fields sample_mixed_fields sample_unparsed_fields
    sample_literal_eval_values sample_unselected_build
  show ?thesis by blast
qed

text \<open>
  C10: in every example of every split, \<^verbatim>\<open>possible_labels.service\<close> is the list of the
  five categories, and \<^verbatim>\<open>labels.passage\<close>, when it is not \<^verbatim>\<open>None\<close>, is an element of
  \<^verbatim>\<open>possible_labels.passage\<close>.
\<close>

theorem passage_among_possible_passages:
  assumes "get_dialog_examples lit fs data_dir sp = Inr exs" and "ex \<in> set exs"
  shows "map_of (possible_labels ex) ''service'' =
           Some (PList [PStr ''LOCATION'', PStr ''NUMERIC'', PStr ''PERSON'',
                        PStr ''DESCRIPTION'', PStr ''ENTITY'']) \<and>
         (\<exists>p ps. map_of (labels ex) ''passage'' = Some p \<and>
                 map_of (possible_labels ex) ''passage'' = Some (PList ps) \<and>
                 (p = PNone \<or> p \<in> set ps))"
proof -
  from get_dialog_examples_member [OF assms] obtain raw i
    where "build_example lit raw i = Inr ex" by blast
  from build_example_Inr [OF this] obtain cands where
    p: "map_of (labels ex) ''passage'' = Some (first_or_none (map passage_text (filter is_flagged cands)))"
    and ps: "map_of (possible_labels ex) ''passage'' = Some (PList (map passage_text cands))"
    and sv: "map_of (possible_labels ex) ''service'' = Some service_labels"
    by auto
  show ?thesis
    using p ps sv first_or_none_member [of passage_text is_flagged cands]
    by (auto simp: service_labels_eq)
qed

theorem passage_among_possible_passages_witness:
  "get_dialog_examples sample_literal_eval (sample_fs 11 3) ''data'' ''test'' =
     Inr (map sample_example [0, 1, 2]) \<and>
   sample_example 1 \<in> set (map sample_example [0, 1, 2]) \<and>
   map_of (possible_labels (sample_example 1)) ''service'' =
           Some (PList [PStr ''LOCATION'', PStr ''NUMERIC'', PStr ''PERSON'',
                        PStr ''DESCRIPTION'', PStr ''ENTITY'']) \<and>
   (\<exists>p ps. map_of (labels (sample_example 1)) ''passage'' = Some p \<and>
           map_of (possible_labels (sample_example 1)) ''passage'' = Some (PList ps) \<and>
           (p = PNone \<or> p \<in> set ps))"
proof -
  have mem: "sample_example 1 \<in> set (map sample_example [0, 1, 2])" by simp
  show ?thesis
    using passage_among_possible_passages [OF sample_test mem] sample_test mem by blast
qed

section \<open>Facts about the filter of the dataset\<close>

lemma strip_empty: "strip s = [] \<longleftrightarrow> list_all is_space s"
proof -
  have "strip s = [] \<longleftrightarrow> (\<forall>c\<in>set (dropWhile is_space s). is_space c)"
    by (simp add: strip_def)
  also have "\<dots> \<longleftrightarrow> dropWhile is_space s = []"
  proof
    assume all: "\<forall>c\<in>set (dropWhile is_space s). is_space c"
    show "dropWhile is_space s = []"
    proof (rule ccontr)
      assume ne: "dropWhile is_space s \<noteq> []"
      then have "\<not> is_space (hd (dropWhile is_space s))" by (rule hd_dropWhile)
      moreover from ne have "hd (dropWhile is_space s) \<in> set (dropWhile is_space s)" by simp
      ultimately show False using all by blast
    qed
  next
    assume "dropWhile is_space s = []"
    then show "\<forall>c\<in>set (dropWhile is_space s). is_space c"
      by (metis empty_iff empty_set)
  qed
  also have "\<dots> \<longleftrightarrow> list_all is_space s"
    by (simp add: list_all_iff)
  finally show ?thesis .
qed

lemma inject_utterance_idem [simp]:
  "inject_utterance (inject_utterance ex) = inject_utterance ex"
  by (simp add: inject_utterance_def)

lemma field_empty_Inr: "field_empty ex f = Inr e \<Longrightarrow> e = (\<not> holds_text ex f)"
proof -
  assume a: "field_empty ex f = Inr e"
  then obtain v where v: "map_of (labels ex) f = Some v"
    by (auto simp: field_empty_def label_of_def and_then_eq_Inr split: option.splits)
  show ?thesis
  proof (cases "truthy v")
    case False
    with a v have "e" by (simp add: field_empty_def label_of_def)
    moreover from False v have "\<not> holds_text ex f"
      by (cases v) (simp_all add: holds_text_def)
    ultimately show ?thesis by simp
  next
    case True
    with a v obtain s where s: "py_strip v = Inr s" and e: "e = (\<not> truthy s)"
      by (auto simp: field_empty_def label_of_def and_then_eq_Inr)
    from s obtain t where t: "v = PStr t" by (cases v) simp_all
    with s have "s = PStr (strip t)" by simp
    with e v t True show ?thesis
      by (simp add: holds_text_def strip_empty)
  qed
qed

lemma fields_loop_Inr:
  "fields_loop ex fs b = Inr r \<Longrightarrow> r = (b \<and> (\<forall>f\<in>set fs. holds_text ex f))"
proof (induction fs arbitrary: b)
  case Nil
  then show ?case by simp
next
  case (Cons f fs)
  from Cons.prems obtain e where e: "field_empty ex f = Inr e"
    and rest: "fields_loop ex fs (if e then False else b) = Inr r"
    by (auto simp: and_then_eq_Inr)
  from field_empty_Inr [OF e] Cons.IH [OF rest] show ?case by auto
qed

lemma field_empty_total: "plain_label ex f \<Longrightarrow> \<exists>e. field_empty ex f = Inr e"
proof -
  assume "plain_label ex f"
  then obtain v where v: "map_of (labels ex) f = Some v" and p: "\<not> truthy v \<or> is_str v"
    by (auto simp: plain_label_def split: option.splits)
  show ?thesis
  proof (cases "truthy v")
    case False
    with v show ?thesis by (auto simp: field_empty_def label_of_def)
  next
    case True
    with p obtain t where "v = PStr t" by (cases v) simp_all
    with v True show ?thesis by (simp add: field_empty_def label_of_def)
  qed
qed

lemma fields_loop_total:
  "\<forall>f\<in>set fs. plain_label ex f \<Longrightarrow> \<exists>r. fields_loop ex fs b = Inr r"
proof (induction fs arbitrary: b)
  case Nil
  then show ?case by simp
next
  case (Cons f fs)
  then obtain e where "field_empty ex f = Inr e"
    using field_empty_total [of ex f] by auto
  with Cons show ?case by simp
qed

lemma fields_loop_retained:
  "fields_loop (inject_utterance ex) (all_fields inp out) True = Inr b
   \<Longrightarrow> b = retained inp out ex"
  by (auto simp: retained_def dest: fields_loop_Inr)

lemma retained_inject [simp]: "retained inp out (inject_utterance ex) = retained inp out ex"
  by (simp add: retained_def)

lemma samples_loop_Inr:
  assumes "samples_loop inp out js (fs, vs) = Inr (fs', vs')" and "\<forall>i\<in>set js. i < length fs"
  shows "length fs' = length fs \<and>
         (\<forall>j<length fs. fs' ! j = (if j \<in> set js then inject_utterance (fs ! j) else fs ! j)) \<and>
         vs' = vs @ filter (\<lambda>i. retained inp out (fs ! i)) js"
  using assms
proof (induction js arbitrary: fs vs)
  case Nil
  then show ?case by simp
next
  case (Cons i js)
  define ex where "ex = inject_utterance (fs ! i)"
  define fs1 where "fs1 = fs[i := ex]"
  from Cons.prems(1) obtain b where
    b: "fields_loop ex (all_fields inp out) True = Inr b"
    and rest: "samples_loop inp out js (fs1, if b then vs @ [i] else vs) = Inr (fs', vs')"
    by (auto simp: Let_def and_then_eq_Inr ex_def fs1_def)
  have b_eq: "b = retained inp out (fs ! i)"
    using b unfolding ex_def by (rule fields_loop_retained)
  have len1: "length fs1 = length fs" by (simp add: fs1_def)
  have i_lt: "i < length fs" using Cons.prems(2) by simp
  have bound: "\<forall>k\<in>set js. k < length fs1" using Cons.prems(2) len1 by simp
  from Cons.IH [OF rest bound]
  have len: "length fs' = length fs1"
    and nth: "\<forall>j<length fs1. fs' ! j = (if j \<in> set js then inject_utterance (fs1 ! j) else fs1 ! j)"
    and vs': "vs' = (if b then vs @ [i] else vs) @ filter (\<lambda>k. retained inp out (fs1 ! k)) js"
    by auto
  have fs1_nth: "fs1 ! j = (if j = i then inject_utterance (fs ! i) else fs ! j)" if "j < length fs" for j
    using that by (simp add: fs1_def ex_def)
  have ret1: "retained inp out (fs1 ! k) = retained inp out (fs ! k)" if "k < length fs" for k
    using fs1_nth [OF that] by simp
  have filt: "filter (\<lambda>k. retained inp out (fs1 ! k)) js = filter (\<lambda>k. retained inp out (fs ! k)) js"
    using Cons.prems(2) by (intro filter_cong) (auto simp: ret1)
  have "\<forall>j<length fs. fs' ! j = (if j \<in> set (i # js) then inject_utterance (fs ! j) else fs ! j)"
  proof (intro allI impI)
    fix j assume j: "j < length fs"
    with nth len1 have "fs' ! j = (if j \<in> set js then inject_utterance (fs1 ! j) else fs1 ! j)"
      by simp
    with fs1_nth [OF j] show "fs' ! j = (if j \<in> set (i # js) then inject_utterance (fs ! j) else fs ! j)"
      by auto
  qed
  with len len1 vs' filt b_eq show ?case by simp
qed

lemma samples_loop_total:
  assumes "\<forall>j<length fs. \<forall>f\<in>set (all_fields inp out). plain_label (inject_utterance (fs ! j)) f"
    and "\<forall>i\<in>set js. i < length fs"
  shows "\<exists>r. samples_loop inp out js (fs, vs) = Inr r"
  using assms
proof (induction js arbitrary: fs vs)
  case Nil
  then show ?case by simp
next
  case (Cons i js)
  define ex where "ex = inject_utterance (fs ! i)"
  define fs1 where "fs1 = fs[i := ex]"
  have i_lt: "i < length fs" using Cons.prems(2) by simp
  with Cons.prems(1) have "\<forall>f\<in>set (all_fields inp out). plain_label ex f"
    by (simp add: ex_def)
  from fields_loop_total [OF this, of True] obtain b where
    b: "fields_loop ex (all_fields inp out) True = Inr b"
    by auto
  have inj1: "inject_utterance (fs1 ! j) = inject_utterance (fs ! j)" if "j < length fs" for j
    using that by (cases "j = i") (simp_all add: fs1_def ex_def)
  have p1: "\<forall>j<length fs1. \<forall>f\<in>set (all_fields inp out). plain_label (inject_utterance (fs1 ! j)) f"
    using Cons.prems(1) inj1 by (simp add: fs1_def)
  have p2: "\<forall>k\<in>set js. k < length fs1" using Cons.prems(2) by (simp add: fs1_def)
  from Cons.IH [OF p1 p2] obtain r where
    "samples_loop inp out js (fs1, if b then vs @ [i] else vs) = Inr r" by blast
  with b show ?case
    by (simp add: Let_def ex_def [symmetric] fs1_def [symmetric])
qed

lemma valid_idxs_of_Inr:
  assumes "valid_idxs_of inp out feats = Inr (feats', vs)"
  shows "feats' = map inject_utterance feats \<and>
         vs = filter (\<lambda>i. retained inp out (feats ! i)) [0..<length feats]"
proof -
  from samples_loop_Inr [OF assms [unfolded valid_idxs_of_def]]
  have len: "length feats' = length feats"
    and nth: "\<forall>j<length feats. feats' ! j = inject_utterance (feats ! j)"
    and vs: "vs = filter (\<lambda>i. retained inp out (feats ! i)) [0..<length feats]"
    by auto
  from len nth have "feats' = map inject_utterance feats"
    by (intro nth_equalityI) simp_all
  with vs show ?thesis by simp
qed

lemma remove_invalid_samples_Inr:
  assumes "remove_invalid_samples inp out feats = Inr res"
  shows "res = filter (retained inp out) (map inject_utterance feats)"
proof -
  from assms obtain feats' vs where v: "valid_idxs_of inp out feats = Inr (feats', vs)"
    and res: "res = map (\<lambda>i. feats' ! i) vs"
    by (auto simp: remove_invalid_samples_def and_then_eq_Inr)
  from valid_idxs_of_Inr [OF v]
  have f: "feats' = map inject_utterance feats"
    and vs: "vs = filter (\<lambda>i. retained inp out (feats ! i)) [0..<length feats]" by auto
  have "res = map (\<lambda>i. inject_utterance (feats ! i)) (filter (\<lambda>i. retained inp out (feats ! i)) [0..<length feats])"
    unfolding res f vs by (rule map_cong) auto
  also have "\<dots> = filter (retained inp out) (map (\<lambda>i. inject_utterance (feats ! i)) [0..<length feats])"
    by (simp add: filter_map comp_def)
  also have "map (\<lambda>i. inject_utterance (feats ! i)) [0..<length feats] = map inject_utterance feats"
    by (intro nth_equalityI) simp_all
  finally show ?thesis .
qed

lemma remove_invalid_samples_total:
  assumes "\<forall>ex\<in>set feats. \<forall>f\<in>set (all_fields inp out). plain_label (inject_utterance ex) f"
  shows "\<exists>res. remove_invalid_samples inp out feats = Inr res"
proof -
  from assms have "\<forall>j<length feats. \<forall>f\<in>set (all_fields inp out). plain_label (inject_utterance (feats ! j)) f"
    by simp
  from samples_loop_total [OF this, of "[0..<length feats]" "[]"]
  obtain r where "valid_idxs_of inp out feats = Inr r"
    by (auto simp: valid_idxs_of_def)
  then show ?thesis
    by (cases r) (simp add: remove_invalid_samples_def)
qed

lemma sample_features_run:
  "remove_invalid_samples ''passage+utterance'' ''response'' sample_features =
   Inr [inject_utterance (sample_example 0), inject_utterance sample_mixed_example]"
  by code_simp

lemma sample_features_plain:
  "\<forall>ex\<in>set sample_features. \<forall>f\<in>set (all_fields ''passage+utterance'' ''response'').
     plain_label (inject_utterance ex) f"
  by code_simp

lemma sample_features_kept:
  "filter (\<lambda>ex. \<forall>f\<in>set (all_fields ''passage+utterance'' ''response''). holds_text ex f)
     (map inject_utterance sample_features) =
   [inject_utterance (sample_example 0), inject_utterance sample_mixed_example]"
  by code_simp

lemma sample_dropped_run:
  "remove_invalid_samples ''passage+utterance'' ''response'' [sample_unselected_example] = Inr []"
  by code_simp

lemma sample_valid_idxs:
  "valid_idxs_of ''passage+utterance'' ''response'' sample_features =
   Inr (map inject_utterance sample_features, [1, 4])"
  by code_simp

section \<open>Properties of the generation dataset\<close>

text \<open>
  C2: an example survives \<^verbatim>\<open>remove_invalid_samples\<close> if and only if, for every field name
  got by splitting \<^verbatim>\<open>input_field\<close> and \<^verbatim>\<open>output_field\<close> on \<^verbatim>\<open>+\<close>, its labels (with the
  utterance among them) hold a string that is not empty and not whitespace only: the
  result is the list of the examples, each with its utterance injected, filtered by that
  condition, in order. The call returns it whenever every such label is there and is a
  string or a false value.
\<close>

theorem filtering_law:
  "(\<forall>res. remove_invalid_samples inp out feats = Inr res \<longrightarrow>
      res = filter (\<lambda>ex. \<forall>f\<in>set (all_fields inp out). holds_text ex f)
              (map inject_utterance feats)) \<and>
   ((\<forall>ex\<in>set feats. \<forall>f\<in>set (all_fields inp out). plain_label (inject_utterance ex) f) \<longrightarrow>
      remove_invalid_samples inp out feats =
        Inr (filter (\<lambda>ex. \<forall>f\<in>set (all_fields inp out). holds_text ex f)
              (map inject_utterance feats)))"
proof -
  have eq: "filter (retained inp out) (map inject_utterance feats) =
        filter (\<lambda>ex. \<forall>f\<in>set (all_fields inp out). holds_text ex f) (map inject_utterance feats)"
    by (intro filter_cong) (auto simp: retained_def)
  have one: "res = filter (\<lambda>ex. \<forall>f\<in>set (all_fields inp out). holds_text ex f)
              (map inject_utterance feats)"
    if "remove_invalid_samples inp out feats = Inr res" for res
    using remove_invalid_samples_Inr [OF that] eq by simp
  have two: "remove_invalid_samples inp out feats =
        Inr (filter (\<lambda>ex. \<forall>f\<in>set (all_fields inp out). holds_text ex f)
              (map inject_utterance feats))"
    if "\<forall>ex\<in>set feats. \<forall>f\<in>set (all_fields inp out). plain_label (inject_utterance ex) f"
  proof -
    from remove_invalid_samples_total [OF that] obtain res
      where "remove_invalid_samples inp out feats = Inr res" by blast
    with one [OF this] show ?thesis by simp
  qed
  from one two show ?thesis by blast
qed

theorem filtering_law_witness:
  "list_all (\<lambda>ex. list_all (plain_label (inject_utterance ex))
               (all_fields ''passage+utterance'' ''response'')) sample_features \<and>
   remove_invalid_samples ''passage+utterance'' ''response'' sample_features =
     Inr [inject_utterance (sample_example 0), inject_utterance sample_mixed_example] \<and>
   filter (\<lambda>ex. \<forall>f\<in>set (all_fields ''passage+utterance'' ''response''). holds_text ex f)
     (map inject_utterance sample_features) =
     [inject_utterance (sample_example 0), inject_utterance sample_mixed_example] \<and>
   \<not> holds_text (inject_utterance sample_unselected_example) ''passage'' \<and>
   \<not> holds_text (inject_utterance blank_response_example) ''response'' \<and>
   \<not> holds_text (inject_utterance empty_utterance_example) ''utterance''"
proof -
  from filtering_law [THEN conjunct2, of sample_features "''passage+utterance''" "''response''"]
    sample_features_plain
  have run: "remove_invalid_samples ''passage+utterance'' ''response'' sample_features =
        Inr (filter (\<lambda>ex. \<forall>f\<in>set (all_fields ''passage+utterance'' ''response''). holds_text ex f)
              (map inject_utterance sample_features))"
    by blast
  have dropped: "\<not> holds_text (inject_utterance sample_unselected_example) ''passage''"
    "\<not> holds_text (inject_utterance blank_response_example) ''response''"
    "\<not> holds_text (inject_utterance empty_utterance_example) ''utterance''"
    by code_simp+
  have plain: "list_all (\<lambda>ex. list_all (plain_label (inject_utterance ex))
               (all_fields ''passage+utterance'' ''response'')) sample_features"
    using sample_features_plain by (simp only: list_all_iff)
  from run sample_features_kept plain dropped show ?thesis
    by (simp only: simp_thms)
qed

text \<open>
  C3, as stated, fails: an example in which one named field holds a text and another is
  \<^verbatim>\<open>None\<close> is dropped, not retained.
\<close>

theorem one_filled_field_counterexample:
  "''utterance'' \<in> set (all_fields ''passage+utterance'' ''response'') \<and>
   holds_text (inject_utterance sample_unselected_example) ''utterance'' \<and>
   remove_invalid_samples ''passage+utterance'' ''response'' [sample_unselected_example] = Inr []"
proof -
  have "''utterance'' \<in> set (all_fields ''passage+utterance'' ''response'')"
    by code_simp
  moreover have "holds_text (inject_utterance sample_unselected_example) ''utterance''"
    by code_simp
  ultimately show ?thesis using sample_dropped_run by simp
qed

text \<open>
  C3, amended: an example is dropped if and only if at least one field name of
  \<^verbatim>\<open>input_field\<close> or \<^verbatim>\<open>output_field\<close> has a label that is missing, empty or whitespace
  only; the indices kept are those of the examples in which every such field holds a text.
\<close>

theorem sample_dropped_on_one_empty_field:
  "(\<forall>feats' vs. valid_idxs_of inp out feats = Inr (feats', vs) \<longrightarrow>
      (\<forall>i<length feats.
         i \<notin> set vs \<longleftrightarrow>
         (\<exists>f\<in>set (all_fields inp out). \<not> holds_text (inject_utterance (feats ! i)) f))) \<and>
   ((\<forall>ex\<in>set feats. \<forall>f\<in>set (all_fields inp out). plain_label (inject_utterance ex) f) \<longrightarrow>
      valid_idxs_of inp out feats =
        Inr (map inject_utterance feats,
             filter (\<lambda>i. \<forall>f\<in>set (all_fields inp out). holds_text (inject_utterance (feats ! i)) f)
               [0..<length feats]))"
proof -
  have one: "\<forall>i<length feats.
         i \<notin> set vs \<longleftrightarrow>
         (\<exists>f\<in>set (all_fields inp out). \<not> holds_text (inject_utterance (feats ! i)) f)"
    if "valid_idxs_of inp out feats = Inr (feats', vs)" for feats' vs
    using valid_idxs_of_Inr [OF that] by (auto simp: retained_def)
  have two: "valid_idxs_of inp out feats =
        Inr (map inject_utterance feats,
             filter (\<lambda>i. \<forall>f\<in>set (all_fields inp out). holds_text (inject_utterance (feats ! i)) f)
               [0..<length feats])"
    if p: "\<forall>ex\<in>set feats. \<forall>f\<in>set (all_fields inp out). plain_label (inject_utterance ex) f"
  proof -
    from p have "\<forall>j<length feats. \<forall>f\<in>set (all_fields inp out).
        plain_label (inject_utterance (feats ! j)) f"
      by simp
    from samples_loop_total [OF this, of "[0..<length feats]" "[]"]
    obtain r where "valid_idxs_of inp out feats = Inr r"
      by (auto simp: valid_idxs_of_def)
    then obtain feats' vs where r: "valid_idxs_of inp out feats = Inr (feats', vs)"
      by (cases r) simp
    from valid_idxs_of_Inr [OF r] r show ?thesis
      by (simp add: retained_def)
  qed
  from one two show ?thesis by blast
qed

theorem sample_dropped_on_one_empty_field_witness:
  "valid_idxs_of ''passage+utterance'' ''response'' sample_features =
     Inr (map inject_utterance sample_features, [1, 4]) \<and>
   length sample_features = 5 \<and>
   (0::nat) \<notin> set [1, 4] \<and>
   holds_text (inject_utterance (sample_features ! 0)) ''utterance'' \<and>
   holds_text (inject_utterance (sample_features ! 0)) ''response'' \<and>
   \<not> holds_text (inject_utterance (sample_features ! 0)) ''passage'' \<and>
   (\<exists>f\<in>set (all_fields ''passage+utterance'' ''response'').
      \<not> holds_text (inject_utterance (sample_features ! 0)) f) \<and>
   (1::nat) \<in> set [1, 4] \<and>
   \<not> (\<exists>f\<in>set (all_fields ''passage+utterance'' ''response'').
      \<not> holds_text (inject_utterance (sample_features ! 1)) f)"
proof -
  have len: "length sample_features = 5" by (simp add: sample_features_def)
  from sample_dropped_on_one_empty_field [THEN conjunct1, of "''passage+utterance''" "''response''"
      sample_features] sample_valid_idxs
  have law: "\<forall>i<length sample_features.
         i \<notin> set [1, 4] \<longleftrightarrow>
         (\<exists>f\<in>set (all_fields ''passage+utterance'' ''response'').
            \<not> holds_text (inject_utterance (sample_features ! i)) f)"
    by blast
  have "(0::nat) < length sample_features" "(0::nat) \<notin> set [1, 4]"
    by (simp_all add: len)
  with law have zero: "\<exists>f\<in>set (all_fields ''passage+utterance'' ''response'').
      \<not> holds_text (inject_utterance (sample_features ! 0)) f"
    by blast
  have "(1::nat) < length sample_features" "(1::nat) \<in> set [1, 4]"
    by (simp_all add: len)
  with law have one: "\<not> (\<exists>f\<in>set (all_fields ''passage+utterance'' ''response'').
      \<not> holds_text (inject_utterance (sample_features ! 1)) f)"
    by blast
  have vals: "holds_text (inject_utterance (sample_features ! 0)) ''utterance''"
    "holds_text (inject_utterance (sample_features ! 0)) ''response''"
    "\<not> holds_text (inject_utterance (sample_features ! 0)) ''passage''"
    by code_simp+
  from sample_valid_idxs len zero one vals show ?thesis by simp
qed

section \<open>Facts about the items of the dataset\<close>

lemma mask_padding_length [simp]: "length (mask_padding pad ids) = length ids"
  by (simp add: mask_padding_def)

lemma mask_padding_nth:
  "k < length ids \<Longrightarrow> mask_padding pad ids ! k = (if ids ! k = pad then - 100 else ids ! k)"
  by (simp add: mask_padding_def)

lemma getitem_Inr:
  assumes "getitem tok ds idx = Inr (ds', input_ids, attn_masks, target)"
  shows "\<exists>j ex ex' prompt out ids masks pids pmasks.
           feature_at (features ds) idx = Inr (j, ex) \<and>
           format_prompt (input_label_type ds) ex = Inr (ex', prompt) \<and>
           label_of ex' (output_label_type ds) = Inr out \<and>
           encode tok (PStr prompt) (max_seq_length (ds_cfg ds)) = Inr (pids, pmasks) \<and>
           encode tok out (max_seq_length (ds_cfg ds)) = Inr (ids, masks) \<and>
           input_ids = map int pids \<and> attn_masks = map int pmasks \<and>
           target = mask_padding (pad_token_id tok) (map int ids) \<and>
           ds' = ds\<lparr>features := (features ds)[j := ex']\<rparr>"
  using assms
  by (auto simp: getitem_def default_encode_def and_then_eq_Inr split: prod.splits)

lemma getitem_run:
  assumes "feature_at (features ds) idx = Inr (j, ex)"
    and "format_prompt (input_label_type ds) ex = Inr (ex', prompt)"
    and "label_of ex' (output_label_type ds) = Inr out"
    and "encode tok (PStr prompt) (max_seq_length (ds_cfg ds)) = Inr (pids, pmasks)"
    and "encode tok out (max_seq_length (ds_cfg ds)) = Inr (ids, masks)"
  shows "getitem tok ds idx =
           Inr (ds\<lparr>features := (features ds)[j := ex']\<rparr>, map int pids, map int pmasks,
                mask_padding (pad_token_id tok) (map int ids))"
  using assms by (simp add: getitem_def default_encode_def)

lemma masked_positions:
  "\<forall>k<length ids.
     mask_padding pad (map int ids) ! k = (if int (ids ! k) = pad then - 100 else int (ids ! k)) \<and>
     (mask_padding pad (map int ids) ! k = - 100 \<longleftrightarrow> int (ids ! k) = pad)"
proof (intro allI impI)
  fix k assume k: "k < length ids"
  then have v: "mask_padding pad (map int ids) ! k = (if int (ids ! k) = pad then - 100 else int (ids ! k))"
    by (simp add: mask_padding_nth)
  moreover have "int (ids ! k) \<noteq> - 100" by simp
  ultimately show "mask_padding pad (map int ids) ! k = (if int (ids ! k) = pad then - 100 else int (ids ! k)) \<and>
     (mask_padding pad (map int ids) ! k = - 100 \<longleftrightarrow> int (ids ! k) = pad)"
    by simp
qed

lemma fluent_getitem:
  "getitem sample_tokenizer fluent_dataset 1 =
     Inr (fluent_dataset\<lparr>features := [sample_example 0, inject_utterance sample_mixed_example]\<rparr>,
          [85, 84, 84, 69, 82, 65, 78, 67, 69, 26, 0, 87],
          [1, 1, 1, 1, 1, 1, 1, 1, 1, 1, 1, 1],
          [41, 84, - 100, 73, 83, - 100, 77, 69, 14, - 100, - 100, - 100])"
  by code_simp

lemma fluent_steps:
  "feature_at (features fluent_dataset) 1 = Inr (1, sample_mixed_example)"
  "format_prompt (input_label_type fluent_dataset) sample_mixed_example =
     Inr (inject_utterance sample_mixed_example, ''utterance: who'')"
  "label_of (inject_utterance sample_mixed_example) (output_label_type fluent_dataset) =
     Inr (PStr ''It is me.'')"
  "encode sample_tokenizer (PStr ''utterance: who'') (max_seq_length (ds_cfg fluent_dataset)) =
     Inr ([85, 84, 84, 69, 82, 65, 78, 67, 69, 26, 0, 87], [1, 1, 1, 1, 1, 1, 1, 1, 1, 1, 1, 1])"
  "encode sample_tokenizer (PStr ''It is me.'') (max_seq_length (ds_cfg fluent_dataset)) =
     Inr ([41, 84, 0, 73, 83, 0, 77, 69, 14, 0, 0, 0], [1, 1, 1, 1, 1, 1, 1, 1, 1, 0, 0, 0])"
  "pad_token_id sample_tokenizer = 0"
  by code_simp+

lemma fragment_Inr:
  "fragment ex part = Inr s \<longleftrightarrow>
     (\<exists>v. map_of (labels ex) part = Some (PStr v) \<and> s = part @ '': '' @ v)"
  by (auto simp: fragment_def label_of_def and_then_eq_Inr split: option.splits pyval.splits)

lemma fragment_label_text:
  "fragment ex part = Inr s \<Longrightarrow> s = part @ '': '' @ label_text ex part"
  by (auto simp: fragment_Inr label_text_def)

lemma map_err_fragment_Inr:
  "map_err (fragment ex) parts = Inr frags \<Longrightarrow>
   frags = map (\<lambda>f. f @ '': '' @ label_text ex f) parts \<and>
   (\<forall>f\<in>set parts. \<exists>v. map_of (labels ex) f = Some (PStr v))"
proof (induction parts arbitrary: frags)
  case Nil
  then show ?case by simp
next
  case (Cons p parts)
  from Cons.prems obtain s rest where s: "fragment ex p = Inr s"
    and rest: "map_err (fragment ex) parts = Inr rest" and frags: "frags = s # rest"
    by (auto simp: and_then_eq_Inr)
  from fragment_label_text [OF s] s Cons.IH [OF rest] frags show ?case
    by (auto simp: fragment_Inr)
qed

lemma map_err_fragment:
  "\<forall>f\<in>set parts. \<exists>s. map_of (labels ex) f = Some (PStr s) \<Longrightarrow>
   map_err (fragment ex) parts = Inr (map (\<lambda>f. f @ '': '' @ label_text ex f) parts)"
proof (induction parts)
  case Nil
  then show ?case by simp
next
  case (Cons p parts)
  then obtain s where "map_of (labels ex) p = Some (PStr s)" by auto
  then have "fragment ex p = Inr (p @ '': '' @ label_text ex p)"
    by (simp add: fragment_Inr label_text_def)
  with Cons show ?case by simp
qed

lemma format_prompt_Inr:
  "format_prompt inp ex = Inr (ex', prompt) \<Longrightarrow>
   ex' = inject_utterance ex \<and> prompt = prompt_of inp ex \<and>
   (\<forall>f\<in>set (split CHR ''+'' inp). \<exists>v. map_of (labels (inject_utterance ex)) f = Some (PStr v))"
  by (auto simp: format_prompt_def Let_def prompt_of_def and_then_eq_Inr dest!: map_err_fragment_Inr)

lemma format_prompt_run:
  "\<forall>f\<in>set (split CHR ''+'' inp). \<exists>v. map_of (labels (inject_utterance ex)) f = Some (PStr v) \<Longrightarrow>
   format_prompt inp ex = Inr (inject_utterance ex, prompt_of inp ex)"
  by (simp add: format_prompt_def Let_def prompt_of_def map_err_fragment)

lemma holds_text_str: "holds_text ex f \<Longrightarrow> \<exists>s. map_of (labels ex) f = Some (PStr s)"
  by (auto simp: holds_text_def split: option.splits pyval.splits)

lemma prompt_of_passage_utterance:
  assumes "map_of (labels ex) ''passage'' = Some (PStr P)" and "utterance ex = PStr U"
  shows "prompt_of ''passage+utterance'' ex = ''passage: '' @ P @ '' utterance: '' @ U"
    and "\<forall>f\<in>set (split CHR ''+'' ''passage+utterance'').
           \<exists>v. map_of (labels (inject_utterance ex)) f = Some (PStr v)"
proof -
  have p: "map_of (labels (inject_utterance ex)) ''passage'' = Some (PStr P)"
    using assms by (simp add: inject_utterance_def update_conv')
  have u: "map_of (labels (inject_utterance ex)) ''utterance'' = Some (PStr U)"
    using assms by (simp add: inject_utterance_def update_conv')
  show "prompt_of ''passage+utterance'' ex = ''passage: '' @ P @ '' utterance: '' @ U"
    using p u by (simp add: prompt_of_def label_text_def)
  show "\<forall>f\<in>set (split CHR ''+'' ''passage+utterance'').
           \<exists>v. map_of (labels (inject_utterance ex)) f = Some (PStr v)"
    using p u by simp
qed

lemma sample_prompt_values:
  "fields_loop (inject_utterance (sample_example 0)) (all_fields ''passage+utterance'' ''response'') True = Inr True"
  "join '' '' (map (\<lambda>f. f @ '': '' @ label_text (inject_utterance (sample_example 0)) f)
     (split CHR ''+'' ''passage+utterance'')) = ''passage: second utterance: who''"
  "join '' '' (map (\<lambda>f. f @ '': '' @ label_text (inject_utterance sample_mixed_example) f)
     (split CHR ''+'' ''utterance+fluent_response+service'')) =
     ''utterance: who fluent_response: It is me. service: PERSON''"
  "format_prompt ''passage+utterance'' sample_unselected_example = Inl TypeError"
  "format_prompt ''passage+topic'' (sample_example 0) = Inl KeyError"
  by code_simp+

lemma feature_at_out_of_range:
  "int (length feats) \<le> idx \<Longrightarrow> feature_at feats idx = Inl IndexError"
  by (simp add: feature_at_def Let_def)

lemma feature_at_in_range:
  "i < length feats \<Longrightarrow> feature_at feats (int i) = Inr (i, feats ! i)"
  by (simp add: feature_at_def Let_def)

lemma init_Inr:
  assumes "init lit fs dataset_split data_dir c = Inr ds"
  shows "\<exists>split' exs filtered.
           normalize_split dataset_split = Inr split' \<and>
           processor_examples lit fs data_dir split' = Inr exs \<and>
           remove_invalid_samples (input_field c) (output_field c) exs = Inr filtered \<and>
           ds = \<lparr> ds_cfg = c, input_label_type = input_field c, output_label_type = output_field c,
                  features = (if debug_mode c then take 16 filtered else filtered) \<rparr>"
  using assms by (auto simp: init_def and_then_eq_Inr)

lemma init_run:
  assumes "normalize_split dataset_split = Inr split'"
    and "processor_examples lit fs data_dir split' = Inr exs"
    and "remove_invalid_samples (input_field c) (output_field c) exs = Inr filtered"
  shows "init lit fs dataset_split data_dir c =
           Inr \<lparr> ds_cfg = c, input_label_type = input_field c, output_label_type = output_field c,
                 features = (if debug_mode c then take 16 filtered else filtered) \<rparr>"
  using assms by (simp add: init_def)

lemma map_of_const:
  "k \<in> f ` set xs \<Longrightarrow> map_of (map (\<lambda>i. (f i, v)) xs) k = Some v"
  by (induction xs) auto

lemma sample_raw_field:
  assumes "i < n"
  shows "raw_field (sample_corpus n) ''query'' i = Inr (PStr ''who'')"
    and "raw_field (sample_corpus n) ''answers'' i = Inr (PList [PStr ''me''])"
    and "raw_field (sample_corpus n) ''wellFormedAnswers'' i = Inr (PStr ''[]'')"
    and "raw_field (sample_corpus n) ''query_type'' i = Inr (PStr ''PERSON'')"
    and "raw_field (sample_corpus n) ''passages'' i = Inr sample_passages"
proof -
  have key: "str_of_nat i \<in> str_of_nat ` set [0..<n]"
    using assms by simp
  show "raw_field (sample_corpus n) ''query'' i = Inr (PStr ''who'')"
    using map_of_const [OF key, of "PStr ''who''"] by (simp add: raw_field_def sample_corpus_def)
  show "raw_field (sample_corpus n) ''answers'' i = Inr (PList [PStr ''me''])"
    using map_of_const [OF key, of "PList [PStr ''me'']"] by (simp add: raw_field_def sample_corpus_def)
  show "raw_field (sample_corpus n) ''wellFormedAnswers'' i = Inr (PStr ''[]'')"
    using map_of_const [OF key, of "PStr ''[]''"] by (simp add: raw_field_def sample_corpus_def)
  show "raw_field (sample_corpus n) ''query_type'' i = Inr (PStr ''PERSON'')"
    using map_of_const [OF key, of "PStr ''PERSON''"] by (simp add: raw_field_def sample_corpus_def)
  show "raw_field (sample_corpus n) ''passages'' i = Inr sample_passages"
    using map_of_const [OF key, of sample_passages] by (simp add: raw_field_def sample_corpus_def)
qed

lemma sample_build_any:
  assumes "i < n"
  shows "build_example sample_literal_eval (sample_corpus n) i = Inr (sample_example i)"
proof -
  have fa: "first_answer (PList [PStr ''me'']) = Inr (PStr ''me'')"
    by (simp add: first_answer_def)
  have fw: "first_well_formed sample_literal_eval (PStr ''[]'') = Inr PNone"
    by (simp add: first_well_formed_def sample_literal_eval_def)
  have it: "py_iter sample_passages =
     Inr [PDict [(''is_selected'', PInt 0), (''passage_text'', PStr ''first'')],
          PDict [(''is_selected'', PInt 1), (''passage_text'', PStr ''second'')]]"
    by (simp add: sample_passages_def)
  from build_example_well_formed [OF sample_raw_field(1,2) [OF assms] fa
      sample_raw_field(3) [OF assms] fw sample_raw_field(4,5) [OF assms] it sample_corpus_candidates]
  show ?thesis
    by (simp add: sample_example_def service_labels_eq is_flagged_def flag_value_def passage_text_def)
qed

lemma sample_len40:
  "py_len (PDict (map (\<lambda>i. (str_of_nat i, PList [PStr ''me''])) [0..<40])) = Inr 40"
  by code_simp

lemma sample_test40:
  "get_dialog_examples sample_literal_eval (sample_fs 3 40) ''data'' ''test'' =
     Inr (map sample_example [0..<40])"
proof -
  have src: "open_json (sample_fs 3 40) ''data'' (''dev'' @ ''_v2.1.json'') = Inr (sample_corpus 40)"
    by (simp add: open_json_def path_join_def sample_fs_def)
  have answers: "getitem_str (sample_corpus 40) ''answers'' =
      Inr (PDict (map (\<lambda>i. (str_of_nat i, PList [PStr ''me''])) [0..<40]))"
    by (simp add: sample_corpus_def)
  have built: "map_err (build_example sample_literal_eval (sample_corpus 40)) [0..<40] =
      Inr (map sample_example [0..<40])"
    by (intro map_err_map) (simp add: sample_build_any)
  show ?thesis
    unfolding get_dialog_examples_def
    by (simp only: source_name_simps and_then_Inr src answers sample_len40 split_idxs_simps built)
qed

lemma sample_all_fields:
  "all_fields ''passage+utterance'' ''response'' = [''passage'', ''utterance'', ''response'']"
  by (simp add: all_fields_def)

lemma sample_example_retained:
  "retained ''passage+utterance'' ''response'' (sample_example i)"
proof -
  have "\<not> is_space CHR ''s''" "\<not> is_space CHR ''w''" "\<not> is_space CHR ''m''"
    by (simp_all add: is_space_def)
  then show ?thesis
    by (simp add: retained_def sample_all_fields holds_text_def inject_utterance_def
        sample_example_def)
qed

lemma sample_example_plain:
  "f \<in> set (all_fields ''passage+utterance'' ''response'') \<Longrightarrow>
   plain_label (inject_utterance (sample_example i)) f"
  by (auto simp: sample_all_fields plain_label_def inject_utterance_def sample_example_def)

lemma sample_filtered40:
  "remove_invalid_samples (input_field sample_cfg) (output_field sample_cfg) (map sample_example [0..<40]) =
     Inr (map (\<lambda>i. inject_utterance (sample_example i)) [0..<40])"
proof -
  have "\<forall>ex\<in>set (map sample_example [0..<40]).
          \<forall>f\<in>set (all_fields ''passage+utterance'' ''response''). plain_label (inject_utterance ex) f"
    using sample_example_plain by auto
  from remove_invalid_samples_total [OF this] obtain res where
    res: "remove_invalid_samples ''passage+utterance'' ''response'' (map sample_example [0..<40]) = Inr res"
    by blast
  from remove_invalid_samples_Inr [OF res]
  have "res = filter (retained ''passage+utterance'' ''response'')
                (map inject_utterance (map sample_example [0..<40]))" .
  also have "\<dots> = map inject_utterance (map sample_example [0..<40])"
    by (intro filter_True) (auto simp: sample_example_retained)
  finally have "res = map (\<lambda>i. inject_utterance (sample_example i)) [0..<40]"
    by (simp add: comp_def)
  with res show ?thesis by (simp add: sample_cfg_def)
qed

lemma sample_split:
  "normalize_split (PList [PStr ''test'']) = Inr (PStr ''test'')"
  "normalize_split (PStr ''test'') = Inr (PStr ''test'')"
  by (simp_all add: normalize_split_def)

lemma sample_processor40:
  "processor_examples sample_literal_eval (sample_fs 3 40) ''data'' (PStr ''test'') =
     Inr (map sample_example [0..<40])"
  using sample_test40 by simp

section \<open>Properties of the items of the dataset\<close>

text \<open>
  C4: in the labels returned by \<^verbatim>\<open>__getitem__\<close>, a position holds \<open>-100\<close> if and only if the
  tokenized target held the tokenizer's padding id there; every other position keeps its
  token id, and the length is unchanged. The call returns these labels whenever the
  example is in range, its prompt is formatted, its target label is there and the
  tokenizer encodes both. Token ids are vocabulary indices, hence natural numbers.
\<close>

theorem padding_law:
  "(\<forall>ds' input_ids attn_masks target.
      getitem tok ds idx = Inr (ds', input_ids, attn_masks, target) \<longrightarrow>
      (\<exists>j ex ex' prompt out ids masks.
         feature_at (features ds) idx = Inr (j, ex) \<and>
         format_prompt (input_label_type ds) ex = Inr (ex', prompt) \<and>
         label_of ex' (output_label_type ds) = Inr out \<and>
         encode tok out (max_seq_length (ds_cfg ds)) = Inr (ids, masks) \<and>
         length target = length ids \<and>
         (\<forall>k<length ids.
            target ! k = (if int (ids ! k) = pad_token_id tok then - 100 else int (ids ! k)) \<and>
            (target ! k = - 100 \<longleftrightarrow> int (ids ! k) = pad_token_id tok)))) \<and>
   (feature_at (features ds) idx = Inr (j, ex) \<and>
    format_prompt (input_label_type ds) ex = Inr (ex', prompt) \<and>
    label_of ex' (output_label_type ds) = Inr out \<and>
    encode tok (PStr prompt) (max_seq_length (ds_cfg ds)) = Inr (pids, pmasks) \<and>
    encode tok out (max_seq_length (ds_cfg ds)) = Inr (ids, masks) \<longrightarrow>
      (\<exists>ds' target.
         getitem tok ds idx = Inr (ds', map int pids, map int pmasks, target) \<and>
         length target = length ids \<and>
         (\<forall>k<length ids.
            target ! k = (if int (ids ! k) = pad_token_id tok then - 100 else int (ids ! k)) \<and>
            (target ! k = - 100 \<longleftrightarrow> int (ids ! k) = pad_token_id tok))))"
proof (intro conjI allI impI)
  fix ds' input_ids attn_masks target
  assume "getitem tok ds idx = Inr (ds', input_ids, attn_masks, target)"
  from getitem_Inr [OF this] obtain j ex ex' prompt out ids masks where
    a: "feature_at (features ds) idx = Inr (j, ex)"
       "format_prompt (input_label_type ds) ex = Inr (ex', prompt)"
       "label_of ex' (output_label_type ds) = Inr out"
       "encode tok out (max_seq_length (ds_cfg ds)) = Inr (ids, masks)"
    and t: "target = mask_padding (pad_token_id tok) (map int ids)"
    by blast
  have len: "length target = length ids" by (simp add: t)
  from masked_positions [of ids "pad_token_id tok"] t
  have pos: "\<forall>k<length ids.
            target ! k = (if int (ids ! k) = pad_token_id tok then - 100 else int (ids ! k)) \<and>
            (target ! k = - 100 \<longleftrightarrow> int (ids ! k) = pad_token_id tok)"
    by simp
  from a len pos show "\<exists>j ex ex' prompt out ids masks.
         feature_at (features ds) idx = Inr (j, ex) \<and>
         format_prompt (input_label_type ds) ex = Inr (ex', prompt) \<and>
         label_of ex' (output_label_type ds) = Inr out \<and>
         encode tok out (max_seq_length (ds_cfg ds)) = Inr (ids, masks) \<and>
         length target = length ids \<and>
         (\<forall>k<length ids.
            target ! k = (if int (ids ! k) = pad_token_id tok then - 100 else int (ids ! k)) \<and>
            (target ! k = - 100 \<longleftrightarrow> int (ids ! k) = pad_token_id tok))"
    by blast
next
  assume a: "feature_at (features ds) idx = Inr (j, ex) \<and>
    format_prompt (input_label_type ds) ex = Inr (ex', prompt) \<and>
    label_of ex' (output_label_type ds) = Inr out \<and>
    encode tok (PStr prompt) (max_seq_length (ds_cfg ds)) = Inr (pids, pmasks) \<and>
    encode tok out (max_seq_length (ds_cfg ds)) = Inr (ids, masks)"
  then have run: "getitem tok ds idx =
           Inr (ds\<lparr>features := (features ds)[j := ex']\<rparr>, map int pids, map int pmasks,
                mask_padding (pad_token_id tok) (map int ids))"
    by (elim conjE) (rule getitem_run)
  with masked_positions [of ids "pad_token_id tok"]
  show "\<exists>ds' target.
         getitem tok ds idx = Inr (ds', map int pids, map int pmasks, target) \<and>
         length target = length ids \<and>
         (\<forall>k<length ids.
            target ! k = (if int (ids ! k) = pad_token_id tok then - 100 else int (ids ! k)) \<and>
            (target ! k = - 100 \<longleftrightarrow> int (ids ! k) = pad_token_id tok))"
    by simp
qed

theorem padding_law_witness:
  "feature_at (features fluent_dataset) 1 = Inr (1, sample_mixed_example) \<and>
   format_prompt (input_label_type fluent_dataset) sample_mixed_example =
     Inr (inject_utterance sample_mixed_example, ''utterance: who'') \<and>
   label_of (inject_utterance sample_mixed_example) (output_label_type fluent_dataset) =
     Inr (PStr ''It is me.'') \<and>
   encode sample_tokenizer (PStr ''It is me.'') (max_seq_length (ds_cfg fluent_dataset)) =
     Inr ([41, 84, 0, 73, 83, 0, 77, 69, 14, 0, 0, 0], [1, 1, 1, 1, 1, 1, 1, 1, 1, 0, 0, 0]) \<and>
   pad_token_id sample_tokenizer = 0 \<and>
   (\<exists>ds' target.
      getitem sample_tokenizer fluent_dataset 1 =
        Inr (ds', map int [85, 84, 84, 69, 82, 65, 78, 67, 69, 26, 0, 87],
             map int [1, 1, 1, 1, 1, 1, 1, 1, 1, 1, 1, 1], target) \<and>
      length target = 12 \<and>
      target ! 1 = 84 \<and> target ! 2 = - 100 \<and> target ! 5 = - 100 \<and> target ! 8 = 14 \<and>
      target ! 9 = - 100 \<and> target ! 11 = - 100) \<and>
   getitem sample_tokenizer fluent_dataset 1 =
     Inr (fluent_dataset\<lparr>features := [sample_example 0, inject_utterance sample_mixed_example]\<rparr>,
          [85, 84, 84, 69, 82, 65, 78, 67, 69, 26, 0, 87],
          [1, 1, 1, 1, 1, 1, 1, 1, 1, 1, 1, 1],
          [41, 84, - 100, 73, 83, - 100, 77, 69, 14, - 100, - 100, - 100])"
proof -
  from padding_law [THEN conjunct2, of fluent_dataset 1 1 sample_mixed_example
      "inject_utterance sample_mixed_example" "''utterance: who''" "PStr ''It is me.''"
      sample_tokenizer "[85, 84, 84, 69, 82, 65, 78, 67, 69, 26, 0, 87]"
      "[1, 1, 1, 1, 1, 1, 1, 1, 1, 1, 1, 1]" "[41, 84, 0, 73, 83, 0, 77, 69, 14, 0, 0, 0]"
      "[1, 1, 1, 1, 1, 1, 1, 1, 1, 0, 0, 0]"] fluent_steps
  obtain ds' target where
    run: "getitem sample_tokenizer fluent_dataset 1 =
        Inr (ds', map int [85, 84, 84, 69, 82, 65, 78, 67, 69, 26, 0, 87],
             map int [1, 1, 1, 1, 1, 1, 1, 1, 1, 1, 1, 1], target)"
    and len: "length target = length [41, 84, 0, 73, 83, 0, 77, 69, 14, 0, 0, 0 :: nat]"
    and pos: "\<forall>k<length [41, 84, 0, 73, 83, 0, 77, 69, 14, 0, 0, 0 :: nat].
            target ! k = (if int ([41, 84, 0, 73, 83, 0, 77, 69, 14, 0, 0, 0] ! k) = 0 then - 100
                          else int ([41, 84, 0, 73, 83, 0, 77, 69, 14, 0, 0, 0] ! k))"
    by auto
  from pos have "target ! 1 = 84" "target ! 2 = - 100" "target ! 5 = - 100" "target ! 8 = 14"
    "target ! 9 = - 100" "target ! 11 = - 100"
    by simp_all
  with run len have "\<exists>ds' target.
      getitem sample_tokenizer fluent_dataset 1 =
        Inr (ds', map int [85, 84, 84, 69, 82, 65, 78, 67, 69, 26, 0, 87],
             map int [1, 1, 1, 1, 1, 1, 1, 1, 1, 1, 1, 1], target) \<and>
      length target = 12 \<and>
      target ! 1 = 84 \<and> target ! 2 = - 100 \<and> target ! 5 = - 100 \<and> target ! 8 = 14 \<and>
      target ! 9 = - 100 \<and> target ! 11 = - 100"
    by auto
  with fluent_steps fluent_getitem show ?thesis by blast
qed

text \<open>
  C5: for an example whose labels at the parts of the input field are strings (every
  retained example is one), the prompt of \<^verbatim>\<open>format_prompt\<close> is the fragments
  \<^verbatim>\<open>field: value\<close> joined by single spaces in the order of the parts; with input field
  \<^verbatim>\<open>passage+utterance\<close>, passage \<open>P\<close> and utterance \<open>U\<close> it is \<^verbatim>\<open>passage: P utterance: U\<close>. A
  prompt that is returned is always this one, and it is the text \<^verbatim>\<open>__getitem__\<close> gives to
  the tokenizer.
\<close>

theorem prompt_format:
  "((\<forall>f\<in>set (split CHR ''+'' inp). \<exists>s. map_of (labels (inject_utterance ex)) f = Some (PStr s)) \<longrightarrow>
      format_prompt inp ex =
        Inr (inject_utterance ex,
             join '' '' (map (\<lambda>f. f @ '': '' @ label_text (inject_utterance ex) f) (split CHR ''+'' inp)))) \<and>
   (fields_loop (inject_utterance ex) (all_fields inp out) True = Inr True \<longrightarrow>
      format_prompt inp ex =
        Inr (inject_utterance ex,
             join '' '' (map (\<lambda>f. f @ '': '' @ label_text (inject_utterance ex) f) (split CHR ''+'' inp)))) \<and>
   (map_of (labels ex) ''passage'' = Some (PStr P) \<and> utterance ex = PStr U \<longrightarrow>
      format_prompt ''passage+utterance'' ex =
        Inr (inject_utterance ex, ''passage: '' @ P @ '' utterance: '' @ U)) \<and>
   (\<forall>ex' prompt. format_prompt inp ex = Inr (ex', prompt) \<longrightarrow>
      ex' = inject_utterance ex \<and>
      prompt = join '' '' (map (\<lambda>f. f @ '': '' @ label_text (inject_utterance ex) f) (split CHR ''+'' inp)) \<and>
      (\<forall>f\<in>set (split CHR ''+'' inp). \<exists>s. map_of (labels (inject_utterance ex)) f = Some (PStr s))) \<and>
   (\<forall>ds' input_ids attn_masks target.
      getitem tok ds idx = Inr (ds', input_ids, attn_masks, target) \<longrightarrow>
      (\<exists>j e pids pmasks.
         feature_at (features ds) idx = Inr (j, e) \<and>
         encode tok
           (PStr (join '' '' (map (\<lambda>f. f @ '': '' @ label_text (inject_utterance e) f)
                                 (split CHR ''+'' (input_label_type ds)))))
           (max_seq_length (ds_cfg ds)) = Inr (pids, pmasks) \<and>
         input_ids = map int pids \<and> attn_masks = map int pmasks))"
proof (intro conjI allI impI)
  assume "\<forall>f\<in>set (split CHR ''+'' inp). \<exists>s. map_of (labels (inject_utterance ex)) f = Some (PStr s)"
  from format_prompt_run [OF this]
  show "format_prompt inp ex =
        Inr (inject_utterance ex,
             join '' '' (map (\<lambda>f. f @ '': '' @ label_text (inject_utterance ex) f) (split CHR ''+'' inp)))"
    by (simp add: prompt_of_def)
next
  assume "fields_loop (inject_utterance ex) (all_fields inp out) True = Inr True"
  from fields_loop_Inr [OF this]
  have "\<forall>f\<in>set (split CHR ''+'' inp). holds_text (inject_utterance ex) f"
    by (simp add: all_fields_def)
  then have "\<forall>f\<in>set (split CHR ''+'' inp). \<exists>s. map_of (labels (inject_utterance ex)) f = Some (PStr s)"
    by (blast dest: holds_text_str)
  from format_prompt_run [OF this]
  show "format_prompt inp ex =
        Inr (inject_utterance ex,
             join '' '' (map (\<lambda>f. f @ '': '' @ label_text (inject_utterance ex) f) (split CHR ''+'' inp)))"
    by (simp add: prompt_of_def)
next
  assume a: "map_of (labels ex) ''passage'' = Some (PStr P) \<and> utterance ex = PStr U"
  then have "prompt_of ''passage+utterance'' ex = ''passage: '' @ P @ '' utterance: '' @ U"
    and "\<forall>f\<in>set (split CHR ''+'' ''passage+utterance'').
           \<exists>v. map_of (labels (inject_utterance ex)) f = Some (PStr v)"
    using prompt_of_passage_utterance [of ex P U] by blast+
  with format_prompt_run [of "''passage+utterance''" ex]
  show "format_prompt ''passage+utterance'' ex =
        Inr (inject_utterance ex, ''passage: '' @ P @ '' utterance: '' @ U)"
    by simp
next
  fix ex' prompt assume "format_prompt inp ex = Inr (ex', prompt)"
  from format_prompt_Inr [OF this]
  show "ex' = inject_utterance ex"
    and "prompt = join '' '' (map (\<lambda>f. f @ '': '' @ label_text (inject_utterance ex) f) (split CHR ''+'' inp))"
    and "\<forall>f\<in>set (split CHR ''+'' inp). \<exists>s. map_of (labels (inject_utterance ex)) f = Some (PStr s)"
    by (simp_all add: prompt_of_def)
next
  fix ds' input_ids attn_masks target
  assume "getitem tok ds idx = Inr (ds', input_ids, attn_masks, target)"
  from getitem_Inr [OF this] obtain j e ex' prompt pids pmasks where
    f: "feature_at (features ds) idx = Inr (j, e)"
    and p: "format_prompt (input_label_type ds) e = Inr (ex', prompt)"
    and enc: "encode tok (PStr prompt) (max_seq_length (ds_cfg ds)) = Inr (pids, pmasks)"
    and io: "input_ids = map int pids" "attn_masks = map int pmasks"
    by blast
  from format_prompt_Inr [OF p] have "prompt = prompt_of (input_label_type ds) e" by simp
  with f enc io show "\<exists>j e pids pmasks.
         feature_at (features ds) idx = Inr (j, e) \<and>
         encode tok
           (PStr (join '' '' (map (\<lambda>f. f @ '': '' @ label_text (inject_utterance e) f)
                                 (split CHR ''+'' (input_label_type ds)))))
           (max_seq_length (ds_cfg ds)) = Inr (pids, pmasks) \<and>
         input_ids = map int pids \<and> attn_masks = map int pmasks"
    by (auto simp: prompt_of_def)
qed

theorem prompt_format_witness:
  "fields_loop (inject_utterance (sample_example 0)) (all_fields ''passage+utterance'' ''response'') True = Inr True \<and>
   format_prompt ''passage+utterance'' (sample_example 0) =
     Inr (inject_utterance (sample_example 0), ''passage: second utterance: who'') \<and>
   map_of (labels sample_mixed_example) ''passage'' = Some (PStr ''third'') \<and>
   utterance sample_mixed_example = PStr ''who'' \<and>
   format_prompt ''passage+utterance'' sample_mixed_example =
     Inr (inject_utterance sample_mixed_example, ''passage: third utterance: who'') \<and>
   format_prompt ''utterance+fluent_response+service'' sample_mixed_example =
     Inr (inject_utterance sample_mixed_example,
          ''utterance: who fluent_response: It is me. service: PERSON'') \<and>
   format_prompt ''passage+utterance'' sample_unselected_example = Inl TypeError \<and>
   format_prompt ''passage+topic'' (sample_example 0) = Inl KeyError"
proof -
  note pf = prompt_format [where tok = sample_tokenizer and ds = fluent_dataset and idx = 0]
  from pf [where inp = "''passage+utterance''" and ex = "sample_example 0" and out = "''response''",
      THEN conjunct2, THEN conjunct1]
    sample_prompt_values(1,2)
  have one: "format_prompt ''passage+utterance'' (sample_example 0) =
     Inr (inject_utterance (sample_example 0), ''passage: second utterance: who'')"
    by simp
  have pu: "map_of (labels sample_mixed_example) ''passage'' = Some (PStr ''third'')"
    "utterance sample_mixed_example = PStr ''who''"
    by (simp_all add: sample_mixed_example_def)
  from pf [where ex = sample_mixed_example and P = "''third''" and U = "''who''",
      THEN conjunct2, THEN conjunct2, THEN conjunct1] pu
  have two: "format_prompt ''passage+utterance'' sample_mixed_example =
     Inr (inject_utterance sample_mixed_example, ''passage: third utterance: who'')"
    by simp
  have strs: "\<forall>f\<in>set (split CHR ''+'' ''utterance+fluent_response+service'').
      \<exists>s. map_of (labels (inject_utterance sample_mixed_example)) f = Some (PStr s)"
    by (simp add: inject_utterance_def sample_mixed_example_def)
  from pf [where inp = "''utterance+fluent_response+service''" and ex = sample_mixed_example,
      THEN conjunct1] strs
    sample_prompt_values(3)
  have three: "format_prompt ''utterance+fluent_response+service'' sample_mixed_example =
     Inr (inject_utterance sample_mixed_example,
          ''utterance: who fluent_response: It is me. service: PERSON'')"
    by simp
  from sample_prompt_values(1,4,5) one pu two three show ?thesis
    by (simp only: simp_thms)
qed

text \<open>
  C9: with \<^verbatim>\<open>debug_mode\<close> set, the dataset keeps the first 16 of the examples that pass the
  filter, in order (all of them when fewer pass), and all of them without it; with 40
  examples passing, its length is 16 and index 16 is out of range.
\<close>

theorem debug_mode_truncation:
  "(normalize_split dataset_split = Inr split' \<and>
    processor_examples lit fs data_dir split' = Inr exs \<and>
    remove_invalid_samples (input_field c) (output_field c) exs = Inr filtered \<longrightarrow>
      (\<exists>ds. init lit fs dataset_split data_dir c = Inr ds \<and>
            (debug_mode c \<longrightarrow>
               features ds = take 16 filtered \<and>
               len ds = min 16 (length filtered) \<and>
               (\<forall>i<min 16 (length filtered). features ds ! i = filtered ! i) \<and>
               (length filtered = 40 \<longrightarrow> len ds = 16 \<and> getitem tok ds 16 = Inl IndexError)) \<and>
            (\<not> debug_mode c \<longrightarrow> features ds = filtered \<and> len ds = length filtered))) \<and>
   (\<forall>ds. init lit fs dataset_split data_dir c = Inr ds \<longrightarrow>
      (\<exists>s xs kept.
         normalize_split dataset_split = Inr s \<and>
         processor_examples lit fs data_dir s = Inr xs \<and>
         remove_invalid_samples (input_field c) (output_field c) xs = Inr kept \<and>
         (debug_mode c \<longrightarrow>
            features ds = take 16 kept \<and>
            len ds = min 16 (length kept) \<and>
            (length kept = 40 \<longrightarrow> len ds = 16 \<and> getitem tok ds 16 = Inl IndexError)) \<and>
         (\<not> debug_mode c \<longrightarrow> features ds = kept)))"
proof -
  have oob: "getitem tok ds 16 = Inl IndexError" if "length (features ds) = 16" for ds
  proof -
    from that have "feature_at (features ds) 16 = Inl IndexError"
      by (intro feature_at_out_of_range) simp
    then show ?thesis by (simp add: getitem_def)
  qed
  have one: "\<exists>ds. init lit fs dataset_split data_dir c = Inr ds \<and>
            (debug_mode c \<longrightarrow>
               features ds = take 16 filtered \<and>
               len ds = min 16 (length filtered) \<and>
               (\<forall>i<min 16 (length filtered). features ds ! i = filtered ! i) \<and>
               (length filtered = 40 \<longrightarrow> len ds = 16 \<and> getitem tok ds 16 = Inl IndexError)) \<and>
            (\<not> debug_mode c \<longrightarrow> features ds = filtered \<and> len ds = length filtered)"
    if a: "normalize_split dataset_split = Inr split'"
      "processor_examples lit fs data_dir split' = Inr exs"
      "remove_invalid_samples (input_field c) (output_field c) exs = Inr filtered"
  proof -
    define ds where "ds = \<lparr> ds_cfg = c, input_label_type = input_field c,
        output_label_type = output_field c,
        features = (if debug_mode c then take 16 filtered else filtered) \<rparr>"
    have run: "init lit fs dataset_split data_dir c = Inr ds"
      unfolding ds_def using a by (rule init_run)
    have f: "features ds = (if debug_mode c then take 16 filtered else filtered)"
      by (simp add: ds_def)
    have "getitem tok ds 16 = Inl IndexError" if "debug_mode c" "length filtered = 40"
      using that f by (intro oob) simp
    with run f show ?thesis
      by (auto simp: len_def)
  qed
  have two: "\<exists>s xs kept.
         normalize_split dataset_split = Inr s \<and>
         processor_examples lit fs data_dir s = Inr xs \<and>
         remove_invalid_samples (input_field c) (output_field c) xs = Inr kept \<and>
         (debug_mode c \<longrightarrow>
            features ds = take 16 kept \<and>
            len ds = min 16 (length kept) \<and>
            (length kept = 40 \<longrightarrow> len ds = 16 \<and> getitem tok ds 16 = Inl IndexError)) \<and>
         (\<not> debug_mode c \<longrightarrow> features ds = kept)"
    if "init lit fs dataset_split data_dir c = Inr ds" for ds
  proof -
    from init_Inr [OF that] obtain s xs kept where
      a: "normalize_split dataset_split = Inr s"
         "processor_examples lit fs data_dir s = Inr xs"
         "remove_invalid_samples (input_field c) (output_field c) xs = Inr kept"
      and f: "features ds = (if debug_mode c then take 16 kept else kept)"
      by auto
    have "getitem tok ds 16 = Inl IndexError" if "debug_mode c" "length kept = 40"
      using that f by (intro oob) simp
    with a f show ?thesis
      by (auto simp: len_def)
  qed
  from one two show ?thesis by blast
qed

theorem debug_mode_truncation_witness:
  "normalize_split (PList [PStr ''test'']) = Inr (PStr ''test'') \<and>
   processor_examples sample_literal_eval (sample_fs 3 40) ''data'' (PStr ''test'') =
     Inr (map sample_example [0..<40]) \<and>
   remove_invalid_samples (input_field sample_cfg) (output_field sample_cfg) (map sample_example [0..<40]) =
     Inr (map (\<lambda>i. inject_utterance (sample_example i)) [0..<40]) \<and>
   length (map (\<lambda>i. inject_utterance (sample_example i)) [0..<40]) = 40 \<and>
   debug_mode sample_cfg \<and>
   (\<exists>ds. init sample_literal_eval (sample_fs 3 40) (PList [PStr ''test'']) ''data'' sample_cfg = Inr ds \<and>
         features ds = take 16 (map (\<lambda>i. inject_utterance (sample_example i)) [0..<40]) \<and>
         features ds = map (\<lambda>i. inject_utterance (sample_example i)) [0..<16] \<and>
         len ds = 16 \<and>
         features ds ! 15 = inject_utterance (sample_example 15) \<and>
         getitem sample_tokenizer ds 16 = Inl IndexError)"
proof -
  have dbg: "debug_mode sample_cfg" by (simp add: sample_cfg_def)
  have len40: "length (map (\<lambda>i. inject_utterance (sample_example i)) [0..<40]) = 40"
    by simp
  from debug_mode_truncation [where tok = sample_tokenizer, THEN conjunct1]
    sample_split(1) sample_processor40 sample_filtered40
  obtain ds where
    run: "init sample_literal_eval (sample_fs 3 40) (PList [PStr ''test'']) ''data'' sample_cfg = Inr ds"
    and d: "debug_mode sample_cfg \<longrightarrow>
               features ds = take 16 (map (\<lambda>i. inject_utterance (sample_example i)) [0..<40]) \<and>
               len ds = min 16 (length (map (\<lambda>i. inject_utterance (sample_example i)) [0..<40])) \<and>
               (\<forall>i<min 16 (length (map (\<lambda>i. inject_utterance (sample_example i)) [0..<40])).
                  features ds ! i = map (\<lambda>i. inject_utterance (sample_example i)) [0..<40] ! i) \<and>
               (length (map (\<lambda>i. inject_utterance (sample_example i)) [0..<40]) = 40 \<longrightarrow>
                  len ds = 16 \<and> getitem sample_tokenizer ds 16 = Inl IndexError)"
    by blast
  from d dbg len40 have f: "features ds = take 16 (map (\<lambda>i. inject_utterance (sample_example i)) [0..<40])"
    and l: "len ds = 16" and g: "getitem sample_tokenizer ds 16 = Inl IndexError"
    by blast+
  have t: "take 16 (map (\<lambda>i. inject_utterance (sample_example i)) [0..<40]) =
        map (\<lambda>i. inject_utterance (sample_example i)) [0..<16]"
    by (simp add: take_map)
  have n: "map (\<lambda>i. inject_utterance (sample_example i)) [0..<16] ! 15 = inject_utterance (sample_example 15)"
    by (simp del: upt_Suc)
  from f t n have "features ds = map (\<lambda>i. inject_utterance (sample_example i)) [0..<16]"
    "features ds ! 15 = inject_utterance (sample_example 15)"
    by simp_all
  with run f l g sample_split(1) sample_processor40 sample_filtered40 len40 dbg show ?thesis
    by blast
qed

end
